theory Spec2Isabelle
  imports Complex_Main
begin

section \<open>The platform: exceptions, datetime arithmetic, math functions\<close>

text \<open>
  The program is \<^verbatim>\<open>optionprice_question.py\<close>: the class \<^verbatim>\<open>EuropeanOptionOnFuture\<close>
  with \<^verbatim>\<open>__init__\<close>, \<^verbatim>\<open>get_price\<close>, \<^verbatim>\<open>get_delta\<close>, \<^verbatim>\<open>_calc_maturity\<close> and
  \<^verbatim>\<open>_calc_d1\<close>.

  Python's \<^verbatim>\<open>float\<close> is modelled by \<^typ>\<open>real\<close>: the model has the operations, their
  order and their exceptions, and no rounding, overflow, infinity or NaN. What is proved
  about signs, identities, monotonicity and numeric values is therefore proved of the
  formulas over the reals; the double-precision results of the program agree with them up
  to rounding, except that far in the tails the distribution function of a double is
  exactly 0 or 1 (see \<open>double_cdf\<close> below). Every raise of the source is a value \<open>Inl err\<close> of the result type
  \<open>error + 'a\<close>.
\<close>

datatype error =
    InvalidOptionType    \<comment> \<open>\<^verbatim>\<open>ValueError("Option type must be 'c' or 'p'")\<close>\<close>
  | MathDomainError      \<comment> \<open>\<^verbatim>\<open>ValueError: math domain error\<close>, from \<^verbatim>\<open>math.log\<close> and \<^verbatim>\<open>math.sqrt\<close>\<close>
  | ZeroDivisionError    \<comment> \<open>\<^verbatim>\<open>ZeroDivisionError: float division by zero\<close>\<close>

subsection \<open>datetime and timedelta\<close>

text \<open>
  A naive \<^verbatim>\<open>datetime.datetime\<close> (no \<^verbatim>\<open>tzinfo\<close>), as the driver of the source builds it.
\<close>

record datetime =
  year :: int
  month :: int
  day :: int
  hour :: int
  minute :: int
  second :: int
  microsecond :: int

record timedelta =
  days :: int
  seconds :: int
  microseconds :: int

definition is_leap :: "int \<Rightarrow> bool" where
  "is_leap y = (y mod 4 = 0 \<and> (y mod 100 \<noteq> 0 \<or> y mod 400 = 0))"

definition days_before_year :: "int \<Rightarrow> int" where
  "days_before_year y = (let z = y - 1 in z * 365 + z div 4 - z div 100 + z div 400)"

definition days_in_month :: "int \<Rightarrow> int \<Rightarrow> int" where
  "days_in_month y m =
     (if m = 2 then (if is_leap y then 29 else 28)
      else if m = 4 \<or> m = 6 \<or> m = 9 \<or> m = 11 then 30 else 31)"

text \<open>The table \<^verbatim>\<open>_DAYS_BEFORE_MONTH\<close> of the standard library, for a common year.\<close>

definition DAYS_BEFORE_MONTH :: "int \<Rightarrow> int" where
  "DAYS_BEFORE_MONTH m =
     (if m = 1 then 0 else if m = 2 then 31 else if m = 3 then 59 else if m = 4 then 90
      else if m = 5 then 120 else if m = 6 then 151 else if m = 7 then 181
      else if m = 8 then 212 else if m = 9 then 243 else if m = 10 then 273
      else if m = 11 then 304 else 334)"

definition days_before_month :: "int \<Rightarrow> int \<Rightarrow> int" where
  "days_before_month y m = DAYS_BEFORE_MONTH m + (if m > 2 \<and> is_leap y then 1 else 0)"

text \<open>\<^verbatim>\<open>datetime.toordinal()\<close>: the proleptic Gregorian ordinal, 1 for 0001-01-01.\<close>

definition toordinal :: "datetime \<Rightarrow> int" where
  "toordinal d = days_before_year (year d) + days_before_month (year d) (month d) + day d"

text \<open>The field ranges that the constructor of \<^verbatim>\<open>datetime\<close> enforces.\<close>

definition valid_datetime :: "datetime \<Rightarrow> bool" where
  "valid_datetime d =
     (1 \<le> year d \<and> year d \<le> 9999 \<and> 1 \<le> month d \<and> month d \<le> 12 \<and>
      1 \<le> day d \<and> day d \<le> days_in_month (year d) (month d) \<and>
      0 \<le> hour d \<and> hour d < 24 \<and> 0 \<le> minute d \<and> minute d < 60 \<and>
      0 \<le> second d \<and> second d < 60 \<and> 0 \<le> microsecond d \<and> microsecond d < 1000000)"

text \<open>
  The constructor of \<^verbatim>\<open>timedelta\<close> normalises its arguments: \<open>0 \<le> microseconds < 10^6\<close>,
  \<open>0 \<le> seconds < 86400\<close>, and \<open>days\<close> carries the rest (and the sign). Python's \<^verbatim>\<open>divmod\<close>
  on integers rounds to minus infinity, as \<open>div\<close> and \<open>mod\<close> on \<^typ>\<open>int\<close> do. The
  difference of two datetimes is far below the limit of \<^verbatim>\<open>timedelta\<close>, so its
  \<^verbatim>\<open>OverflowError\<close> does not arise here.
\<close>

definition mk_timedelta :: "int \<Rightarrow> int \<Rightarrow> int \<Rightarrow> timedelta" where
  "mk_timedelta d s us =
     (let total = (d * 86400 + s) * 1000000 + us
      in \<lparr>days = total div 86400000000,
          seconds = (total div 1000000) mod 86400,
          microseconds = total mod 1000000\<rparr>)"

text \<open>\<^verbatim>\<open>datetime.__sub__\<close> on two naive datetimes.\<close>

definition datetime_sub :: "datetime \<Rightarrow> datetime \<Rightarrow> timedelta" where
  "datetime_sub a b =
     (let days1 = toordinal a; days2 = toordinal b;
          secs1 = second a + minute a * 60 + hour a * 3600;
          secs2 = second b + minute b * 60 + hour b * 3600
      in mk_timedelta (days1 - days2) (secs1 - secs2) (microsecond a - microsecond b))"

text \<open>The microseconds from the start of ordinal day 0 to a datetime: its place in time.\<close>

definition to_us :: "datetime \<Rightarrow> int" where
  "to_us d = ((toordinal d * 86400 + (second d + minute d * 60 + hour d * 3600)) * 1000000
              + microsecond d)"

text \<open>
  Comparison of naive datetimes is the comparison of the tuples
  \<^verbatim>\<open>(year, month, day, hour, minute, second, microsecond)\<close>, as \<^verbatim>\<open>datetime._cmp\<close> does it.
\<close>

definition datetime_key :: "datetime \<Rightarrow> int list" where
  "datetime_key d = [year d, month d, day d, hour d, minute d, second d, microsecond d]"

fun lex_less :: "int list \<Rightarrow> int list \<Rightarrow> bool" where
  "lex_less (x # xs) (y # ys) = (x < y \<or> (x = y \<and> lex_less xs ys))"
| "lex_less [] (y # ys) = True"
| "lex_less xs [] = False"

definition datetime_lt :: "datetime \<Rightarrow> datetime \<Rightarrow> bool" where
  "datetime_lt a b = lex_less (datetime_key a) (datetime_key b)"

definition datetime_le :: "datetime \<Rightarrow> datetime \<Rightarrow> bool" where
  "datetime_le a b = (datetime_key a = datetime_key b \<or> datetime_lt a b)"

text \<open>The part of a datetime within its day, in microseconds.\<close>

definition day_frac :: "datetime \<Rightarrow> int" where
  "day_frac d = (second d + minute d * 60 + hour d * 3600) * 1000000 + microsecond d"

subsection \<open>Float division and the math module\<close>

definition truediv :: "real \<Rightarrow> real \<Rightarrow> error + real" where
  "truediv a b = (if b = 0 then Inl ZeroDivisionError else Inr (a / b))"

definition log_py :: "real \<Rightarrow> error + real" where
  "log_py x = (if x \<le> 0 then Inl MathDomainError else Inr (ln x))"

definition sqrt_py :: "real \<Rightarrow> error + real" where
  "sqrt_py x = (if x < 0 then Inl MathDomainError else Inr (sqrt x))"

section \<open>The class EuropeanOptionOnFuture\<close>

record EuropeanOptionOnFuture =
  strike_price :: real
  expiry_date :: datetime
  vol :: real
  discount_rate :: real
  option_type :: string

text \<open>\<^verbatim>\<open>__init__\<close>: the only check is the membership test on \<^verbatim>\<open>option_type\<close>.\<close>

definition init :: "real \<Rightarrow> datetime \<Rightarrow> real \<Rightarrow> real \<Rightarrow> string \<Rightarrow> error + EuropeanOptionOnFuture" where
  "init strike expiry v r ot =
     (if ot \<notin> set [''c'', ''p''] then Inl InvalidOptionType
      else Inr \<lparr>strike_price = strike, expiry_date = expiry, vol = v,
                discount_rate = r, option_type = ot\<rparr>)"

text \<open>\<^verbatim>\<open>_calc_maturity\<close>: \<^verbatim>\<open>(self._expiry_date - current_time).days / 365\<close>.\<close>

definition calc_maturity :: "EuropeanOptionOnFuture \<Rightarrow> datetime \<Rightarrow> real" where
  "calc_maturity e current_time = of_int (days (datetime_sub (expiry_date e) current_time)) / 365"

text \<open>
  \<^verbatim>\<open>_calc_d1\<close>, in Python's order of evaluation: the quotient, its logarithm, the rest of
  the numerator, the square root in the denominator, the division.
\<close>

definition calc_d1 :: "EuropeanOptionOnFuture \<Rightarrow> real \<Rightarrow> real \<Rightarrow> error + real" where
  "calc_d1 e futures_price time_to_maturity =
     (case truediv futures_price (strike_price e) of
        Inl err \<Rightarrow> Inl err
      | Inr q \<Rightarrow>
     (case log_py q of
        Inl err \<Rightarrow> Inl err
      | Inr l \<Rightarrow>
     (case sqrt_py time_to_maturity of
        Inl err \<Rightarrow> Inl err
      | Inr s \<Rightarrow>
          truediv (l + 0.5 * (vol e)\<^sup>2 * time_to_maturity) (vol e * s))))"

text \<open>
  \<^verbatim>\<open>get_price\<close> and \<^verbatim>\<open>get_delta\<close>. The function \<open>cdf\<close> stands for \<^verbatim>\<open>scipy.stats.norm.cdf\<close>,
  which is not code of this repository: it is a parameter of the model.
\<close>

definition get_price :: "(real \<Rightarrow> real) \<Rightarrow> EuropeanOptionOnFuture \<Rightarrow> real \<Rightarrow> datetime \<Rightarrow> error + real" where
  "get_price cdf e futures_price current_time =
     (let time_to_maturity = calc_maturity e current_time in
      case calc_d1 e futures_price time_to_maturity of
        Inl err \<Rightarrow> Inl err
      | Inr d1 \<Rightarrow>
     (case sqrt_py time_to_maturity of
        Inl err \<Rightarrow> Inl err
      | Inr s \<Rightarrow>
          (let d2 = d1 - vol e * s in
           if option_type e = ''c'' then
             Inr (exp (- discount_rate e * time_to_maturity) *
                  (futures_price * cdf d1 - strike_price e * cdf d2))
           else if option_type e = ''p'' then
             Inr (exp (- discount_rate e * time_to_maturity) *
                  (strike_price e * cdf (- d2) - futures_price * cdf (- d1)))
           else Inl InvalidOptionType)))"

definition get_delta :: "(real \<Rightarrow> real) \<Rightarrow> EuropeanOptionOnFuture \<Rightarrow> real \<Rightarrow> datetime \<Rightarrow> error + real" where
  "get_delta cdf e futures_price current_time =
     (let time_to_maturity = calc_maturity e current_time in
      case calc_d1 e futures_price time_to_maturity of
        Inl err \<Rightarrow> Inl err
      | Inr d1 \<Rightarrow>
          if option_type e = ''c'' then
            Inr (exp (- discount_rate e * time_to_maturity) * cdf d1)
          else if option_type e = ''p'' then
            Inr (exp (- discount_rate e * time_to_maturity) * (cdf d1 - 1))
          else Inl InvalidOptionType)"

subsection \<open>The scenario of the driver\<close>

text \<open>
  The values of the \<^verbatim>\<open>__main__\<close> block: strike 100, volatility 0.5, expiry
  2022-11-01 12:00:00, discount rate 0.01, futures price 100, current time
  2021-11-01 12:00:00. The option type is the argument.
\<close>

definition main_expiry :: datetime where
  "main_expiry = \<lparr>year = 2022, month = 11, day = 1, hour = 12, minute = 0, second = 0,
                   microsecond = 0\<rparr>"

definition main_curr_time :: datetime where
  "main_curr_time = \<lparr>year = 2021, month = 11, day = 1, hour = 12, minute = 0, second = 0,
                      microsecond = 0\<rparr>"

definition main_opt :: "string \<Rightarrow> EuropeanOptionOnFuture" where
  "main_opt opt_type = \<lparr>strike_price = 100, expiry_date = main_expiry, vol = 1/2,
                         discount_rate = 1/100, option_type = opt_type\<rparr>"

text \<open>Two further dates, a leap year apart, and a stand-in for the distribution function.\<close>

definition new_year_2020 :: datetime where
  "new_year_2020 = \<lparr>year = 2020, month = 1, day = 1, hour = 0, minute = 0, second = 0,
                     microsecond = 0\<rparr>"

definition new_year_2021 :: datetime where
  "new_year_2021 = \<lparr>year = 2021, month = 1, day = 1, hour = 0, minute = 0, second = 0,
                     microsecond = 0\<rparr>"

definition logistic :: "real \<Rightarrow> real" where
  "logistic x = 1 / (1 + exp (- x))"

subsection \<open>The standard normal distribution function\<close>

text \<open>
  The distribution function of the standard normal law, for which \<^verbatim>\<open>norm.cdf\<close> stands:
  \<open>1 / 2\<close> plus the primitive of the density \<open>exp (- x\<^sup>2 / 2) / sqrt (2 * pi)\<close> that vanishes
  at 0. The primitive of \<open>exp (- x\<^sup>2 / 2)\<close> is given by its power series
  \<open>x - x^3 / 6 + x^5 / 40 - \<dots>\<close>.
\<close>

definition gauss_coeff :: "nat \<Rightarrow> real" where
  "gauss_coeff n = (if even n then (- 1 / 2) ^ (n div 2) / (fact (n div 2) * real (Suc n)) else 0)"

definition gauss_primitive :: "real \<Rightarrow> real" where
  "gauss_primitive x = (\<Sum>n. gauss_coeff n * x ^ Suc n)"

definition std_normal_cdf :: "real \<Rightarrow> real" where
  "std_normal_cdf x = 1 / 2 + gauss_primitive x / sqrt (2 * pi)"

text \<open>
  A short-dated contract for the tails: strike 100, volatility 0.1, discount rate 0.01,
  expiring one day after the valuation time of the driver.
\<close>

definition next_day_expiry :: datetime where
  "next_day_expiry = \<lparr>year = 2021, month = 11, day = 2, hour = 12, minute = 0, second = 0,
                       microsecond = 0\<rparr>"

definition short_opt :: "string \<Rightarrow> EuropeanOptionOnFuture" where
  "short_opt opt_type = \<lparr>strike_price = 100, expiry_date = next_day_expiry, vol = 1/10,
                          discount_rate = 1/100, option_type = opt_type\<rparr>"

text \<open>
  The distribution function as a double-precision implementation returns it in the tails.
  From 9 upwards the exact value is within \<open>1.2 * 10\<^sup>-\<^sup>1\<^sup>9\<close> of 1, less than half the spacing
  \<open>1.1 * 10\<^sup>-\<^sup>1\<^sup>6\<close> of the doubles below 1, so the result is exactly 1.0; up to -39 the exact
  value is below \<open>10\<^sup>-\<^sup>3\<^sup>3\<^sup>0\<close>, less than the smallest positive double, so the result is
  exactly 0.0. (A double-precision \<^verbatim>\<open>norm.cdf\<close> reaches 1.0 near 8.3 and 0.0 near -38.5
  already.) Between the tails the function is the exact one, kept within \<open>[0, 1]\<close>, which
  its values do not leave.
\<close>

definition double_cdf :: "real \<Rightarrow> real" where
  "double_cdf x = (if x \<le> - 39 then 0 else if 9 \<le> x then 1
                   else max 0 (min 1 (std_normal_cdf x)))"

section \<open>Shared facts\<close>

lemma init_Inr_iff:
  "init strike expiry v r ot = Inr e \<longleftrightarrow>
     (ot = ''c'' \<or> ot = ''p'') \<and>
     e = \<lparr>strike_price = strike, expiry_date = expiry, vol = v,
          discount_rate = r, option_type = ot\<rparr>"
  by (auto simp: init_def)

lemma toordinal_main_expiry: "toordinal main_expiry = 738460"
  by (simp add: toordinal_def main_expiry_def days_before_year_def days_before_month_def DAYS_BEFORE_MONTH_def is_leap_def)

lemma toordinal_main_curr_time: "toordinal main_curr_time = 738095"
  by (simp add: toordinal_def main_curr_time_def days_before_year_def days_before_month_def DAYS_BEFORE_MONTH_def is_leap_def)

lemma days_main: "days (datetime_sub main_expiry main_curr_time) = 365"
  by (simp add: datetime_sub_def mk_timedelta_def toordinal_main_expiry toordinal_main_curr_time)
     (simp add: main_expiry_def main_curr_time_def)

lemma calc_d1_unfold:
  "calc_d1 e F T =
     (if strike_price e = 0 then Inl ZeroDivisionError
      else if F / strike_price e \<le> 0 then Inl MathDomainError
      else if T < 0 then Inl MathDomainError
      else if vol e * sqrt T = 0 then Inl ZeroDivisionError
      else Inr ((ln (F / strike_price e) + 0.5 * (vol e)\<^sup>2 * T) / (vol e * sqrt T)))"
  by (simp add: calc_d1_def truediv_def log_py_def sqrt_py_def)

lemma calc_d1_Inr_iff:
  "calc_d1 e F T = Inr d \<longleftrightarrow>
     strike_price e \<noteq> 0 \<and> 0 < F / strike_price e \<and> 0 < T \<and> vol e \<noteq> 0 \<and>
     d = (ln (F / strike_price e) + 0.5 * (vol e)\<^sup>2 * T) / (vol e * sqrt T)"
  by (auto simp: calc_d1_unfold)

lemma calc_d1_Inl_iff:
  "(\<exists>err. calc_d1 e F T = Inl err) \<longleftrightarrow>
     \<not> (strike_price e \<noteq> 0 \<and> 0 < F / strike_price e \<and> 0 < T \<and> vol e \<noteq> 0)"
  by (auto simp: calc_d1_unfold)

lemma get_price_Inl: "calc_d1 e F (calc_maturity e t) = Inl err \<Longrightarrow> get_price \<Phi> e F t = Inl err"
  by (simp add: get_price_def Let_def)

lemma get_delta_Inl: "calc_d1 e F (calc_maturity e t) = Inl err \<Longrightarrow> get_delta \<Phi> e F t = Inl err"
  by (simp add: get_delta_def Let_def)

lemma get_price_Inr:
  assumes "calc_d1 e F (calc_maturity e t) = Inr d1"
  shows "get_price \<Phi> e F t =
     (if option_type e = ''c'' then
        Inr (exp (- discount_rate e * calc_maturity e t) *
             (F * \<Phi> d1 - strike_price e * \<Phi> (d1 - vol e * sqrt (calc_maturity e t))))
      else if option_type e = ''p'' then
        Inr (exp (- discount_rate e * calc_maturity e t) *
             (strike_price e * \<Phi> (- (d1 - vol e * sqrt (calc_maturity e t))) - F * \<Phi> (- d1)))
      else Inl InvalidOptionType)"
proof -
  from assms have "0 < calc_maturity e t"
    by (simp add: calc_d1_Inr_iff)
  then have "sqrt_py (calc_maturity e t) = Inr (sqrt (calc_maturity e t))"
    by (simp add: sqrt_py_def)
  with assms show ?thesis
    by (simp add: get_price_def Let_def)
qed

lemma get_delta_Inr:
  assumes "calc_d1 e F (calc_maturity e t) = Inr d1"
  shows "get_delta \<Phi> e F t =
     (if option_type e = ''c'' then Inr (exp (- discount_rate e * calc_maturity e t) * \<Phi> d1)
      else if option_type e = ''p'' then
        Inr (exp (- discount_rate e * calc_maturity e t) * (\<Phi> d1 - 1))
      else Inl InvalidOptionType)"
  using assms by (simp add: get_delta_def Let_def)

lemma init_fields:
  assumes "init K E v r ot = Inr e"
  shows "strike_price e = K" "expiry_date e = E" "vol e = v" "discount_rate e = r"
    "option_type e = ot" "ot = ''c'' \<or> ot = ''p''"
  using assms by (auto simp: init_Inr_iff)

lemma init_main_opt: "init 100 main_expiry (1/2) (1/100) ''c'' = Inr (main_opt ''c'')"
  by (simp add: init_def main_opt_def)

lemma init_main_opt_put: "init 100 main_expiry (1/2) (1/100) ''p'' = Inr (main_opt ''p'')"
  by (simp add: init_def main_opt_def)

lemma calc_maturity_main: "calc_maturity (main_opt ot) main_curr_time = 1"
  by (simp add: calc_maturity_def main_opt_def days_main)

lemma calc_d1_main: "calc_d1 (main_opt ot) 100 1 = Inr (1/4)"
  by (simp add: calc_d1_unfold main_opt_def power2_eq_square)

subsection \<open>The calendar: ordinals and comparison\<close>

lemma days_datetime_sub: "days (datetime_sub a b) = (to_us a - to_us b) div 86400000000"
proof -
  have "((toordinal a - toordinal b) * 86400 +
         (second a + minute a * 60 + hour a * 3600 - (second b + minute b * 60 + hour b * 3600)))
          * 1000000 + (microsecond a - microsecond b) = to_us a - to_us b"
    by (simp add: to_us_def algebra_simps)
  then show ?thesis
    by (simp add: datetime_sub_def mk_timedelta_def Let_def)
qed

lemma div_pred:
  fixes y n :: int
  assumes n: "0 < n"
  shows "y div n = (y - 1) div n + (if y mod n = 0 then 1 else 0)"
proof -
  define q where "q = y div n"
  define m where "m = y mod n"
  have y: "y = q * n + m" by (simp add: q_def m_def)
  have m: "0 \<le> m" "m < n" using n by (simp_all add: m_def)
  have n0: "n \<noteq> 0" using n by simp
  show ?thesis
  proof (cases "m = 0")
    case True
    have "y - 1 = (q - 1) * n + (n - 1)" using y True by (simp add: algebra_simps)
    then have "(y - 1) div n = (q - 1) + (n - 1) div n"
      by (simp only: div_mult_self3 [OF n0])
    also have "(n - 1) div n = 0" using n by simp
    finally show ?thesis using True by (simp add: q_def [symmetric] m_def [symmetric])
  next
    case False
    have "y - 1 = q * n + (m - 1)" using y by simp
    then have "(y - 1) div n = q + (m - 1) div n"
      by (simp only: div_mult_self3 [OF n0])
    also have "(m - 1) div n = 0" using m False by simp
    finally show ?thesis using False by (simp add: q_def [symmetric] m_def [symmetric])
  qed
qed


lemma dby_step: "days_before_year (y + 1) = days_before_year y + (if is_leap y then 366 else 365)"
proof -
  have d4: "y div 4 = (y - 1) div 4 + (if y mod 4 = 0 then 1 else 0)"
    by (rule div_pred) simp
  have d100: "y div 100 = (y - 1) div 100 + (if y mod 100 = 0 then 1 else 0)"
    by (rule div_pred) simp
  have d400: "y div 400 = (y - 1) div 400 + (if y mod 400 = 0 then 1 else 0)"
    by (rule div_pred) simp
  have "(4::int) dvd 100" "(100::int) dvd 400" by simp_all
  then have m1: "y mod 100 = 0 \<Longrightarrow> y mod 4 = 0" and m2: "y mod 400 = 0 \<Longrightarrow> y mod 100 = 0"
    by (simp_all only: mod_eq_0_iff_dvd) (blast intro: dvd_trans)+
  have "days_before_year (y + 1) = y * 365 + y div 4 - y div 100 + y div 400"
    by (simp add: days_before_year_def)
  also have "\<dots> = days_before_year y + 365
      + (if y mod 4 = 0 then 1 else 0) - (if y mod 100 = 0 then 1 else 0)
      + (if y mod 400 = 0 then 1 else 0)"
    unfolding days_before_year_def Let_def
    by (simp only: d4 d100 d400) (simp only: algebra_simps)
  also have "\<dots> = days_before_year y + (if is_leap y then 366 else 365)"
    using m1 m2 by (cases "y mod 4 = 0"; cases "y mod 100 = 0"; cases "y mod 400 = 0")
                   (simp_all add: is_leap_def)
  finally show ?thesis .
qed


lemma dby_mono_nat: "days_before_year y \<le> days_before_year (y + int k)"
proof (induction k)
  case 0
  then show ?case by simp
next
  case (Suc k)
  have "y + int (Suc k) = (y + int k) + 1" by simp
  then have "days_before_year (y + int (Suc k)) = days_before_year ((y + int k) + 1)"
    by (simp only:)
  also have "\<dots> \<ge> days_before_year (y + int k)"
    by (simp add: dby_step)
  finally show ?case using Suc.IH by linarith
qed

lemma dby_mono: "y1 \<le> y2 \<Longrightarrow> days_before_year y1 \<le> days_before_year y2"
  using dby_mono_nat [of y1 "nat (y2 - y1)"] by simp

lemma month_cases:
  fixes m :: int
  assumes "1 \<le> m" "m \<le> 12"
  shows "m = 1 \<or> m = 2 \<or> m = 3 \<or> m = 4 \<or> m = 5 \<or> m = 6 \<or> m = 7 \<or> m = 8 \<or> m = 9 \<or> m = 10
         \<or> m = 11 \<or> m = 12"
  using assms by presburger

lemma dbm_step:
  assumes "1 \<le> m" "m \<le> 11"
  shows "days_before_month y (m + 1) = days_before_month y m + days_in_month y m"
proof -
  from assms have "m = 1 \<or> m = 2 \<or> m = 3 \<or> m = 4 \<or> m = 5 \<or> m = 6 \<or> m = 7 \<or> m = 8 \<or> m = 9
     \<or> m = 10 \<or> m = 11" by presburger
  then show ?thesis
    by (elim disjE) (simp_all add: days_before_month_def DAYS_BEFORE_MONTH_def days_in_month_def)
qed

lemma dim_pos: "28 \<le> days_in_month y m"
  by (simp add: days_in_month_def)

lemma dbm_mono_nat:
  "1 \<le> m \<Longrightarrow> m + int k \<le> 12 \<Longrightarrow> days_before_month y m \<le> days_before_month y (m + int k)"
proof (induction k)
  case 0
  then show ?case by simp
next
  case (Suc k)
  then have "days_before_month y (m + int k + 1)
      = days_before_month y (m + int k) + days_in_month y (m + int k)"
    by (intro dbm_step) simp_all
  moreover have "m + int (Suc k) = m + int k + 1" by simp
  moreover have "days_before_month y m \<le> days_before_month y (m + int k)"
    using Suc by simp
  ultimately show ?case
    using dim_pos [of y "m + int k"] by (simp only:)
qed

lemma dbm_next_le:
  assumes "1 \<le> m1" "m1 < m2" "m2 \<le> 12"
  shows "days_before_month y m1 + days_in_month y m1 \<le> days_before_month y m2"
proof -
  have "days_before_month y (m1 + 1) \<le> days_before_month y ((m1 + 1) + int (nat (m2 - m1 - 1)))"
    using assms by (intro dbm_mono_nat) simp_all
  moreover have "(m1 + 1) + int (nat (m2 - m1 - 1)) = m2" using assms by simp
  moreover have "days_before_month y (m1 + 1) = days_before_month y m1 + days_in_month y m1"
    using assms by (intro dbm_step) simp_all
  ultimately show ?thesis by simp
qed

lemma year_length:
  "days_before_month y 12 + days_in_month y 12 = (if is_leap y then 366 else 365)"
  by (simp add: days_before_month_def DAYS_BEFORE_MONTH_def days_in_month_def)

lemma day_of_year_le:
  assumes "1 \<le> m" "m \<le> 12" "d \<le> days_in_month y m"
  shows "days_before_month y m + d \<le> (if is_leap y then 366 else 365)"
proof (cases "m = 12")
  case True
  with assms(3) year_length [of y] show ?thesis by (simp split: if_splits)
next
  case False
  with assms have "days_before_month y m + days_in_month y m \<le> days_before_month y 12"
    by (intro dbm_next_le) simp_all
  with assms(3) year_length [of y] dim_pos [of y 12] show ?thesis by (simp split: if_splits)
qed

lemma dbm_nonneg: "0 \<le> days_before_month y m"
  by (simp add: days_before_month_def DAYS_BEFORE_MONTH_def)


lemma lex_pair:
  fixes q1 q2 r1 r2 n :: int
  assumes "0 \<le> r1" "r1 < n" "0 \<le> r2" "r2 < n"
  shows "q1 * n + r1 < q2 * n + r2 \<longleftrightarrow> q1 < q2 \<or> (q1 = q2 \<and> r1 < r2)"
proof -
  have up: "a * n + r < b * n + s" if "a < b" "r < n" "0 \<le> s" for a b r s :: int
  proof -
    from that(1) have "a + 1 \<le> b" by simp
    moreover have "0 \<le> n" using assms by linarith
    ultimately have "(a + 1) * n \<le> b * n" by (rule mult_right_mono)
    with that(2,3) show ?thesis by (simp add: algebra_simps)
  qed
  consider "q1 < q2" | "q1 = q2" | "q2 < q1" by linarith
  then show ?thesis
  proof cases
    case 1
    with up [of q1 q2 r1 r2] assms show ?thesis by simp
  next
    case 2
    then show ?thesis by simp
  next
    case 3
    with up [of q2 q1 r2 r1] assms show ?thesis by simp
  qed
qed

lemma to_us_split: "to_us d = toordinal d * 86400000000 + day_frac d"
  by (simp add: to_us_def day_frac_def algebra_simps)

lemma day_frac_range:
  assumes "valid_datetime d"
  shows "0 \<le> day_frac d" "day_frac d < 86400000000"
  using assms by (simp_all add: valid_datetime_def day_frac_def)

lemma day_frac_less:
  assumes "valid_datetime a" "valid_datetime b"
  shows "day_frac a < day_frac b \<longleftrightarrow>
    lex_less [hour a, minute a, second a, microsecond a] [hour b, minute b, second b, microsecond b]"
proof -
  from assms have ra: "0 \<le> minute a" "minute a < 60" "0 \<le> second a" "second a < 60"
      "0 \<le> microsecond a" "microsecond a < 1000000"
    and rb: "0 \<le> minute b" "minute b < 60" "0 \<le> second b" "second b < 60"
      "0 \<le> microsecond b" "microsecond b < 1000000"
    by (simp_all add: valid_datetime_def)
  have fa: "day_frac a = hour a * 3600000000 + (minute a * 60000000 + (second a * 1000000 + microsecond a))"
    and fb: "day_frac b = hour b * 3600000000 + (minute b * 60000000 + (second b * 1000000 + microsecond b))"
    by (simp_all add: day_frac_def algebra_simps)
  have s: "second a * 1000000 + microsecond a < second b * 1000000 + microsecond b \<longleftrightarrow>
      second a < second b \<or> (second a = second b \<and> microsecond a < microsecond b)"
    using ra rb by (intro lex_pair) simp_all
  have sa: "0 \<le> second a * 1000000 + microsecond a" "second a * 1000000 + microsecond a < 60000000"
    and sb: "0 \<le> second b * 1000000 + microsecond b" "second b * 1000000 + microsecond b < 60000000"
    using ra rb by simp_all
  have m: "minute a * 60000000 + (second a * 1000000 + microsecond a)
         < minute b * 60000000 + (second b * 1000000 + microsecond b) \<longleftrightarrow>
      minute a < minute b \<or> (minute a = minute b \<and>
        second a * 1000000 + microsecond a < second b * 1000000 + microsecond b)"
    using sa sb by (intro lex_pair) simp_all
  have ma: "0 \<le> minute a * 60000000 + (second a * 1000000 + microsecond a)"
      "minute a * 60000000 + (second a * 1000000 + microsecond a) < 3600000000"
    and mb: "0 \<le> minute b * 60000000 + (second b * 1000000 + microsecond b)"
      "minute b * 60000000 + (second b * 1000000 + microsecond b) < 3600000000"
    using ra rb by simp_all
  have h: "day_frac a < day_frac b \<longleftrightarrow>
      hour a < hour b \<or> (hour a = hour b \<and>
        minute a * 60000000 + (second a * 1000000 + microsecond a)
         < minute b * 60000000 + (second b * 1000000 + microsecond b))"
    unfolding fa fb using ma mb by (intro lex_pair) simp_all
  show ?thesis
    unfolding h m s by simp
qed


lemma toordinal_less:
  assumes "valid_datetime a" "valid_datetime b"
  shows "toordinal a < toordinal b \<longleftrightarrow>
    year a < year b \<or> (year a = year b \<and>
      (month a < month b \<or> (month a = month b \<and> day a < day b)))"
proof -
  from assms have va: "1 \<le> month a" "month a \<le> 12" "1 \<le> day a"
      "day a \<le> days_in_month (year a) (month a)"
    and vb: "1 \<le> month b" "month b \<le> 12" "1 \<le> day b"
      "day b \<le> days_in_month (year b) (month b)"
    by (simp_all add: valid_datetime_def)
  have year_lt: "toordinal c < toordinal d"
    if "year c < year d" "1 \<le> month c" "month c \<le> 12" "day c \<le> days_in_month (year c) (month c)"
       "1 \<le> day d" for c d
  proof -
    have "days_before_month (year c) (month c) + day c \<le> (if is_leap (year c) then 366 else 365)"
      using that by (intro day_of_year_le) simp_all
    then have "toordinal c \<le> days_before_year (year c + 1)"
      by (simp add: toordinal_def dby_step split: if_splits)
    also have "\<dots> \<le> days_before_year (year d)"
      using that(1) by (intro dby_mono) simp
    also have "\<dots> < toordinal d"
      using that(5) dbm_nonneg [of "year d" "month d"] by (simp add: toordinal_def)
    finally show ?thesis .
  qed
  have month_lt: "toordinal c < toordinal d"
    if "year c = year d" "month c < month d" "1 \<le> month c" "month d \<le> 12"
       "day c \<le> days_in_month (year c) (month c)" "1 \<le> day d" for c d
  proof -
    have "days_before_month (year c) (month c) + days_in_month (year c) (month c)
        \<le> days_before_month (year c) (month d)"
      using that by (intro dbm_next_le) simp_all
    with that show ?thesis by (simp add: toordinal_def)
  qed
  consider "year a < year b" | "year b < year a"
    | "year a = year b" "month a < month b" | "year a = year b" "month b < month a"
    | "year a = year b" "month a = month b"
    by linarith
  then show ?thesis
  proof cases
    case 1
    with year_lt [of a b] va vb show ?thesis by simp
  next
    case 2
    with year_lt [of b a] va vb show ?thesis by simp
  next
    case 3
    with month_lt [of a b] va vb show ?thesis by simp
  next
    case 4
    with month_lt [of b a] va vb show ?thesis by simp
  next
    case 5
    then show ?thesis by (simp add: toordinal_def)
  qed
qed

lemma toordinal_eq:
  assumes "valid_datetime a" "valid_datetime b"
  shows "toordinal a = toordinal b \<longleftrightarrow> year a = year b \<and> month a = month b \<and> day a = day b"
proof
  assume eq: "toordinal a = toordinal b"
  then have "\<not> toordinal a < toordinal b" "\<not> toordinal b < toordinal a" by simp_all
  then show "year a = year b \<and> month a = month b \<and> day a = day b"
    unfolding toordinal_less [OF assms] toordinal_less [OF assms(2,1)] by linarith
next
  assume "year a = year b \<and> month a = month b \<and> day a = day b"
  then show "toordinal a = toordinal b" by (simp add: toordinal_def)
qed

lemma to_us_less:
  assumes "valid_datetime a" "valid_datetime b"
  shows "to_us a < to_us b \<longleftrightarrow> datetime_lt a b"
proof -
  have "to_us a < to_us b \<longleftrightarrow>
      toordinal a < toordinal b \<or> (toordinal a = toordinal b \<and> day_frac a < day_frac b)"
    unfolding to_us_split
    using day_frac_range [OF assms(1)] day_frac_range [OF assms(2)] by (intro lex_pair)
  then show ?thesis
    unfolding toordinal_less [OF assms] toordinal_eq [OF assms] day_frac_less [OF assms]
    by (auto simp: datetime_lt_def datetime_key_def)
qed

lemma to_us_eq:
  assumes "valid_datetime a" "valid_datetime b"
  shows "to_us a = to_us b \<longleftrightarrow> datetime_key a = datetime_key b"
proof
  assume eq: "to_us a = to_us b"
  then have "\<not> datetime_lt a b" "\<not> datetime_lt b a"
    using to_us_less [OF assms] to_us_less [OF assms(2,1)] by simp_all
  then show "datetime_key a = datetime_key b"
    by (auto simp: datetime_lt_def datetime_key_def)
next
  assume "datetime_key a = datetime_key b"
  then show "to_us a = to_us b"
    by (simp add: datetime_key_def to_us_def toordinal_def)
qed

lemma to_us_le:
  assumes "valid_datetime a" "valid_datetime b"
  shows "to_us a \<le> to_us b \<longleftrightarrow> datetime_le a b"
  using to_us_less [OF assms] to_us_eq [OF assms] by (auto simp: datetime_le_def)


lemma valid_main: "valid_datetime main_expiry" "valid_datetime main_curr_time"
  by (simp_all add: valid_datetime_def main_expiry_def main_curr_time_def days_in_month_def)

lemma days_main_rev: "days (datetime_sub main_curr_time main_expiry) = - 365"
  by (simp add: datetime_sub_def mk_timedelta_def toordinal_main_expiry toordinal_main_curr_time)
     (simp add: main_expiry_def main_curr_time_def)

lemma calc_maturity_main_expiry: "calc_maturity (main_opt ot) main_expiry = 0"
  by (simp add: calc_maturity_def main_opt_def days_datetime_sub)

lemma logistic_range: "0 < logistic x" "logistic x < 1"
proof -
  have pos: "0 < 1 + exp (- x)"
    using exp_gt_zero [of "- x"] by linarith
  then show "0 < logistic x" by (simp add: logistic_def)
  have lt: "1 < 1 + exp (- x)" by simp
  from divide_less_eq_1_pos [OF pos, of 1] lt show "logistic x < 1"
    unfolding logistic_def by blast
qed

subsection \<open>Calculus of the Black-76 value\<close>

lemma d1_deriv:
  fixes K s F :: real
  assumes "0 < K" "0 < s" "0 < F"
  shows "((\<lambda>F. (ln (F / K) + s\<^sup>2 / 2) / s + a) has_real_derivative 1 / (F * s)) (at F)"
  using assms by (auto intro!: derivative_eq_intros simp: field_simps)

lemma gauss_shift:
  fixes K s F d :: real
  assumes "0 < K" "0 < F" and ds: "d * s = ln (F / K) + s\<^sup>2 / 2"
  shows "K * exp (- (d - s)\<^sup>2 / 2) = F * exp (- d\<^sup>2 / 2)"
proof -
  have "- (d - s)\<^sup>2 / 2 = - d\<^sup>2 / 2 + (d * s - s\<^sup>2 / 2)"
    by (simp add: power2_eq_square field_simps)
  also have "\<dots> = - d\<^sup>2 / 2 + ln (F / K)"
    by (simp only: ds)
  finally have "exp (- (d - s)\<^sup>2 / 2) = exp (- d\<^sup>2 / 2 + ln (F / K))"
    by (simp only:)
  also have "\<dots> = exp (- d\<^sup>2 / 2) * exp (ln (F / K))"
    by (rule exp_add)
  also have "exp (ln (F / K)) = F / K"
    using assms(1,2) by simp
  finally show ?thesis using assms(1) by simp
qed

lemma call_value_deriv:
  fixes K s F c :: real and \<Phi> :: "real \<Rightarrow> real"
  assumes pos: "0 < K" "0 < s" "0 < F"
    and der: "\<And>x. x = (ln (F / K) + s\<^sup>2 / 2) / s \<or> x = (ln (F / K) + s\<^sup>2 / 2) / s - s \<Longrightarrow>
                (\<Phi> has_real_derivative c * exp (- x\<^sup>2 / 2)) (at x)"
  shows "((\<lambda>F. F * \<Phi> ((ln (F / K) + s\<^sup>2 / 2) / s)
              - K * \<Phi> ((ln (F / K) + s\<^sup>2 / 2) / s - s))
          has_real_derivative \<Phi> ((ln (F / K) + s\<^sup>2 / 2) / s)) (at F)"
proof -
  define d where "d = (ln (F / K) + s\<^sup>2 / 2) / s"
  have d1: "((\<lambda>F. (ln (F / K) + s\<^sup>2 / 2) / s) has_real_derivative 1 / (F * s)) (at F)"
    using d1_deriv [OF pos, of 0] by simp
  have d2: "((\<lambda>F. (ln (F / K) + s\<^sup>2 / 2) / s - s) has_real_derivative 1 / (F * s)) (at F)"
    using d1_deriv [OF pos, of "- s"] by simp
  have p1: "((\<lambda>F. \<Phi> ((ln (F / K) + s\<^sup>2 / 2) / s))
      has_real_derivative c * exp (- d\<^sup>2 / 2) * (1 / (F * s))) (at F)"
    unfolding d_def by (rule DERIV_chain2 [OF der d1]) simp
  have p2: "((\<lambda>F. \<Phi> ((ln (F / K) + s\<^sup>2 / 2) / s - s))
      has_real_derivative c * exp (- (d - s)\<^sup>2 / 2) * (1 / (F * s))) (at F)"
    unfolding d_def by (rule DERIV_chain2 [OF der d2]) simp
  have "((\<lambda>F. F * \<Phi> ((ln (F / K) + s\<^sup>2 / 2) / s)
              - K * \<Phi> ((ln (F / K) + s\<^sup>2 / 2) / s - s))
          has_real_derivative
            (1 * \<Phi> d + c * exp (- d\<^sup>2 / 2) * (1 / (F * s)) * F)
            - K * (c * exp (- (d - s)\<^sup>2 / 2) * (1 / (F * s)))) (at F)"
    unfolding d_def
    by (intro DERIV_diff DERIV_mult DERIV_ident DERIV_cmult p1 [unfolded d_def] p2 [unfolded d_def])
  moreover have "(1 * \<Phi> d + c * exp (- d\<^sup>2 / 2) * (1 / (F * s)) * F)
            - K * (c * exp (- (d - s)\<^sup>2 / 2) * (1 / (F * s))) = \<Phi> d"
  proof -
    define E1 where "E1 = exp (- (d - s)\<^sup>2 / 2)"
    define E0 where "E0 = exp (- d\<^sup>2 / 2)"
    have "d * s = ln (F / K) + s\<^sup>2 / 2"
      using pos by (simp add: d_def)
    then have eq: "K * E1 = F * E0"
      unfolding E1_def E0_def by (rule gauss_shift [OF pos(1,3)])
    have "K * (c * E1 * (1 / (F * s))) = c * (K * E1) * (1 / (F * s))"
      by simp
    also have "\<dots> = c * (F * E0) * (1 / (F * s))"
      by (simp only: eq)
    also have "\<dots> = c * E0 * (1 / (F * s)) * F"
      by simp
    finally show ?thesis
      by (simp add: E1_def E0_def)
  qed
  ultimately show ?thesis by (simp add: d_def)
qed


lemma put_value_deriv:
  fixes K s F c :: real and \<Phi> :: "real \<Rightarrow> real"
  assumes pos: "0 < K" "0 < s" "0 < F"
    and der: "\<And>x. x = - ((ln (F / K) + s\<^sup>2 / 2) / s) \<or>
                x = - ((ln (F / K) + s\<^sup>2 / 2) / s - s) \<Longrightarrow>
                (\<Phi> has_real_derivative c * exp (- x\<^sup>2 / 2)) (at x)"
  shows "((\<lambda>F. K * \<Phi> (- ((ln (F / K) + s\<^sup>2 / 2) / s - s))
              - F * \<Phi> (- ((ln (F / K) + s\<^sup>2 / 2) / s)))
          has_real_derivative - \<Phi> (- ((ln (F / K) + s\<^sup>2 / 2) / s))) (at F)"
proof -
  define d where "d = (ln (F / K) + s\<^sup>2 / 2) / s"
  define E1 where "E1 = exp (- (d - s)\<^sup>2 / 2)"
  define E0 where "E0 = exp (- d\<^sup>2 / 2)"
  have e0: "exp (- (- d)\<^sup>2 / 2) = E0" and e1: "exp (- (- (d - s))\<^sup>2 / 2) = E1"
    by (simp_all only: E0_def E1_def power2_minus)
  have d1: "((\<lambda>F. - ((ln (F / K) + s\<^sup>2 / 2) / s)) has_real_derivative - (1 / (F * s))) (at F)"
    using d1_deriv [OF pos, of 0] by (intro DERIV_minus) simp
  have d2: "((\<lambda>F. - ((ln (F / K) + s\<^sup>2 / 2) / s - s)) has_real_derivative - (1 / (F * s)))
      (at F)"
    using d1_deriv [OF pos, of "- s"] by (intro DERIV_minus) simp
  have "((\<lambda>F. \<Phi> (- ((ln (F / K) + s\<^sup>2 / 2) / s)))
      has_real_derivative c * exp (- (- d)\<^sup>2 / 2) * (- (1 / (F * s)))) (at F)"
    unfolding d_def by (rule DERIV_chain2 [OF der d1]) simp
  then have p1: "((\<lambda>F. \<Phi> (- ((ln (F / K) + s\<^sup>2 / 2) / s)))
      has_real_derivative c * E0 * (- (1 / (F * s)))) (at F)"
    by (simp only: e0)
  have "((\<lambda>F. \<Phi> (- ((ln (F / K) + s\<^sup>2 / 2) / s - s)))
      has_real_derivative c * exp (- (- (d - s))\<^sup>2 / 2) * (- (1 / (F * s)))) (at F)"
    unfolding d_def by (rule DERIV_chain2 [OF der d2]) simp
  then have p2: "((\<lambda>F. \<Phi> (- ((ln (F / K) + s\<^sup>2 / 2) / s - s)))
      has_real_derivative c * E1 * (- (1 / (F * s)))) (at F)"
    by (simp only: e1)
  have "((\<lambda>F. K * \<Phi> (- ((ln (F / K) + s\<^sup>2 / 2) / s - s))
              - F * \<Phi> (- ((ln (F / K) + s\<^sup>2 / 2) / s)))
          has_real_derivative
            K * (c * E1 * (- (1 / (F * s))))
            - (1 * \<Phi> (- d) + c * E0 * (- (1 / (F * s))) * F)) (at F)"
    unfolding d_def
    by (intro DERIV_diff DERIV_mult DERIV_ident DERIV_cmult p1 p2)
  moreover have "K * (c * E1 * (- (1 / (F * s))))
            - (1 * \<Phi> (- d) + c * E0 * (- (1 / (F * s))) * F) = - \<Phi> (- d)"
  proof -
    have "d * s = ln (F / K) + s\<^sup>2 / 2"
      using pos by (simp add: d_def)
    then have eq: "K * E1 = F * E0"
      unfolding E1_def E0_def by (rule gauss_shift [OF pos(1,3)])
    have "K * (c * E1 * (- (1 / (F * s)))) = c * (K * E1) * (- (1 / (F * s)))"
      by simp
    also have "\<dots> = c * (F * E0) * (- (1 / (F * s)))"
      by (simp only: eq)
    also have "\<dots> = c * E0 * (- (1 / (F * s))) * F"
      by simp
    finally show ?thesis
      by simp
  qed
  ultimately show ?thesis by (simp only: d_def)
qed

lemma d1_mono:
  fixes K s x y :: real
  assumes "0 < K" "0 < s" "0 < x" "x \<le> y"
  shows "(ln (x / K) + s\<^sup>2 / 2) / s \<le> (ln (y / K) + s\<^sup>2 / 2) / s"
proof -
  have "x / K \<le> y / K" using assms(1,4) by (simp add: divide_right_mono)
  moreover have "0 < x / K" using assms(1,3) by simp
  ultimately have "ln (x / K) \<le> ln (y / K)" by (rule ln_mono)
  then have "ln (x / K) + s\<^sup>2 / 2 \<le> ln (y / K) + s\<^sup>2 / 2" by simp
  then show ?thesis using assms(2) by (simp only: divide_right_mono less_imp_le)
qed

lemma call_value_increasing:
  fixes K s F1 F2 c :: real and \<Phi> :: "real \<Rightarrow> real"
  assumes "0 < K" "0 < s" "0 < F1" "F1 < F2"
    and loc: "\<And>x. (ln (F1 / K) + s\<^sup>2 / 2) / s - s \<le> x \<Longrightarrow> x \<le> (ln (F2 / K) + s\<^sup>2 / 2) / s \<Longrightarrow>
                (\<Phi> has_real_derivative c * exp (- x\<^sup>2 / 2)) (at x) \<and> 0 < \<Phi> x"
  shows "F1 * \<Phi> ((ln (F1 / K) + s\<^sup>2 / 2) / s) - K * \<Phi> ((ln (F1 / K) + s\<^sup>2 / 2) / s - s)
       < F2 * \<Phi> ((ln (F2 / K) + s\<^sup>2 / 2) / s) - K * \<Phi> ((ln (F2 / K) + s\<^sup>2 / 2) / s - s)"
proof (rule DERIV_pos_imp_increasing [OF assms(4)])
  fix x assume x: "F1 \<le> x" "x \<le> F2"
  with assms(3) have xpos: "0 < x" by linarith
  define d where "d = (ln (x / K) + s\<^sup>2 / 2) / s"
  have lo: "(ln (F1 / K) + s\<^sup>2 / 2) / s \<le> d"
    unfolding d_def by (rule d1_mono [OF assms(1,2,3) x(1)])
  have hi: "d \<le> (ln (F2 / K) + s\<^sup>2 / 2) / s"
    unfolding d_def by (rule d1_mono [OF assms(1,2) xpos x(2)])
  have in1: "(ln (F1 / K) + s\<^sup>2 / 2) / s - s \<le> d" using lo assms(2) by linarith
  have in2: "(ln (F1 / K) + s\<^sup>2 / 2) / s - s \<le> d - s" using lo by linarith
  have in3: "d - s \<le> (ln (F2 / K) + s\<^sup>2 / 2) / s" using hi assms(2) by linarith
  have der: "(\<Phi> has_real_derivative c * exp (- y\<^sup>2 / 2)) (at y)" if "y = d \<or> y = d - s" for y
    using that loc [OF in1 hi] loc [OF in2 in3] by blast
  have "0 < \<Phi> d" using loc [OF in1 hi] by blast
  with call_value_deriv [OF assms(1,2) xpos, of \<Phi> c] der
  show "\<exists>y. ((\<lambda>F. F * \<Phi> ((ln (F / K) + s\<^sup>2 / 2) / s)
              - K * \<Phi> ((ln (F / K) + s\<^sup>2 / 2) / s - s)) has_real_derivative y) (at x) \<and> 0 < y"
    unfolding d_def by blast
qed

lemma put_value_decreasing:
  fixes K s F1 F2 c :: real and \<Phi> :: "real \<Rightarrow> real"
  assumes "0 < K" "0 < s" "0 < F1" "F1 < F2"
    and loc: "\<And>x. - ((ln (F2 / K) + s\<^sup>2 / 2) / s) \<le> x \<Longrightarrow>
                x \<le> s - (ln (F1 / K) + s\<^sup>2 / 2) / s \<Longrightarrow>
                (\<Phi> has_real_derivative c * exp (- x\<^sup>2 / 2)) (at x) \<and> 0 < \<Phi> x"
  shows "K * \<Phi> (- ((ln (F2 / K) + s\<^sup>2 / 2) / s - s)) - F2 * \<Phi> (- ((ln (F2 / K) + s\<^sup>2 / 2) / s))
       < K * \<Phi> (- ((ln (F1 / K) + s\<^sup>2 / 2) / s - s)) - F1 * \<Phi> (- ((ln (F1 / K) + s\<^sup>2 / 2) / s))"
proof (rule DERIV_neg_imp_decreasing [OF assms(4)])
  fix x assume x: "F1 \<le> x" "x \<le> F2"
  with assms(3) have xpos: "0 < x" by linarith
  define d where "d = (ln (x / K) + s\<^sup>2 / 2) / s"
  have lo: "(ln (F1 / K) + s\<^sup>2 / 2) / s \<le> d"
    unfolding d_def by (rule d1_mono [OF assms(1,2,3) x(1)])
  have hi: "d \<le> (ln (F2 / K) + s\<^sup>2 / 2) / s"
    unfolding d_def by (rule d1_mono [OF assms(1,2) xpos x(2)])
  have in1: "- ((ln (F2 / K) + s\<^sup>2 / 2) / s) \<le> - d" using hi by linarith
  have in2: "- d \<le> s - (ln (F1 / K) + s\<^sup>2 / 2) / s" using lo assms(2) by linarith
  have in3: "- ((ln (F2 / K) + s\<^sup>2 / 2) / s) \<le> - (d - s)" using hi assms(2) by linarith
  have in4: "- (d - s) \<le> s - (ln (F1 / K) + s\<^sup>2 / 2) / s" using lo by linarith
  have der: "(\<Phi> has_real_derivative c * exp (- y\<^sup>2 / 2)) (at y)" if "y = - d \<or> y = - (d - s)" for y
    using that loc [OF in1 in2] loc [OF in3 in4] by blast
  have "0 < \<Phi> (- d)" using loc [OF in1 in2] by blast
  then have "- \<Phi> (- d) < 0" by simp
  with put_value_deriv [OF assms(1,2) xpos, of \<Phi> c] der
  show "\<exists>y. ((\<lambda>F. K * \<Phi> (- ((ln (F / K) + s\<^sup>2 / 2) / s - s))
              - F * \<Phi> (- ((ln (F / K) + s\<^sup>2 / 2) / s))) has_real_derivative y) (at x) \<and> y < 0"
    unfolding d_def by blast
qed



lemma exp_neg_hundredth:
  "(9900498 / 10000000 :: real) \<le> exp (- (1 / 100))" "exp (- (1 / 100)) \<le> (99005 / 100000 :: real)"
proof -
  obtain t :: real where t: "\<bar>t\<bar> \<le> \<bar>- (1 / 100)\<bar>"
    and e: "exp (- (1 / 100)) = (\<Sum>m<3. ((- (1 / 100)) ^ m) / fact m) + (exp t / fact 3) * (- (1 / 100)) ^ 3"
    using Maclaurin_exp_le [of "- (1 / 100)" 3] by blast
  have s: "(\<Sum>m<3. ((- (1 / 100 :: real)) ^ m) / fact m) = 99005 / 100000"
    by (simp add: numeral_eq_Suc lessThan_Suc fact_numeral)
  have r: "(exp t / fact 3) * (- (1 / 100)) ^ 3 = - (exp t / 6000000)"
    by (simp add: fact_numeral power3_eq_cube)
  have "t \<le> 1 / 100" using t by simp
  then have "exp t \<le> exp (1 / 100)" by simp
  also have "\<dots> \<le> 1 + 1 / 100 + (1 / 100)\<^sup>2"
    by (rule exp_bound) simp_all
  finally have up: "exp t \<le> 10101 / 10000" by (simp add: power2_eq_square)
  have lo: "0 < exp t" by simp
  from e s r have v: "exp (- (1 / 100)) = 99005 / 100000 - exp t / 6000000" by simp
  from v up show "(9900498 / 10000000 :: real) \<le> exp (- (1 / 100))" by simp
  from v lo show "exp (- (1 / 100)) \<le> (99005 / 100000 :: real)" by simp
qed


lemma model_d1:
  fixes v T :: real
  assumes "0 < v" "0 < T"
  shows "(ln (F / K) + 0.5 * v\<^sup>2 * T) / (v * sqrt T)
       = (ln (F / K) + (v * sqrt T)\<^sup>2 / 2) / (v * sqrt T)"
  using assms by (simp add: power_mult_distrib)

subsection \<open>The normal distribution function: derivative, symmetry, bounds\<close>

lemma cancel_last_factor:
  fixes a f b :: real
  assumes "b \<noteq> 0"
  shows "a / (f * b) * b = a / f"
  using assms by simp

lemma scaleR_fact_divide:
  fixes a :: real
  shows "a / fact k = a /\<^sub>R fact k"
  by (simp add: divide_inverse mult.commute)

lemma gauss_term_even:
  fixes x :: real
  shows "gauss_coeff (2 * k) * real (Suc (2 * k)) * x ^ (2 * k) = (- x\<^sup>2 / 2) ^ k /\<^sub>R fact k"
proof -
  have p: "(- x\<^sup>2 / 2) ^ k = (- 1 / 2) ^ k * x ^ (2 * k)"
  proof -
    have "- x\<^sup>2 / 2 = (- 1 / 2) * x\<^sup>2" by simp
    then have "(- x\<^sup>2 / 2) ^ k = ((- 1 / 2) * x\<^sup>2) ^ k" by (simp only:)
    also have "\<dots> = (- 1 / 2) ^ k * (x\<^sup>2) ^ k" by (rule power_mult_distrib)
    also have "(x\<^sup>2) ^ k = x ^ (2 * k)" by (simp only: power_mult)
    finally show ?thesis .
  qed
  have c: "gauss_coeff (2 * k) = (- 1 / 2) ^ k / (fact k * real (Suc (2 * k)))"
    by (simp add: gauss_coeff_def)
  have nz: "real (Suc (2 * k)) \<noteq> 0" by simp
  have "gauss_coeff (2 * k) * real (Suc (2 * k)) = (- 1 / 2) ^ k / fact k"
    unfolding c by (rule cancel_last_factor [OF nz])
  then have "gauss_coeff (2 * k) * real (Suc (2 * k)) * x ^ (2 * k) = (- 1 / 2) ^ k / fact k * x ^ (2 * k)"
    by (simp only:)
  also have "\<dots> = ((- 1 / 2) ^ k * x ^ (2 * k)) / fact k"
    by (simp only: times_divide_eq_left)
  also have "\<dots> = (- x\<^sup>2 / 2) ^ k / fact k"
    by (simp only: p [symmetric])
  also have "\<dots> = (- x\<^sup>2 / 2) ^ k /\<^sub>R fact k"
    by (rule scaleR_fact_divide)
  finally show ?thesis .
qed


lemma gauss_density_sums:
  "(\<lambda>n. gauss_coeff n * real (Suc n) * x ^ n) sums exp (- x\<^sup>2 / 2)"
proof -
  let ?g = "\<lambda>k. (- x\<^sup>2 / 2) ^ k /\<^sub>R fact k"
  have "?g sums exp (- x\<^sup>2 / 2)"
    by (rule exp_converges)
  from sums_if [OF sums_zero this]
  have s: "(\<lambda>n. if even n then ?g (n div 2) else 0) sums (exp (- x\<^sup>2 / 2) + 0)"
    by (simp only: add.commute)
  have t: "gauss_coeff n * real (Suc n) * x ^ n = (if even n then ?g (n div 2) else 0)" for n
  proof (cases "even n")
    case True
    then obtain k where k: "n = 2 * k" by (auto elim: evenE)
    have "(2 * k) div 2 = k" by simp
    with gauss_term_even [of k x] True show ?thesis
      unfolding k by (simp only: if_True)
  next
    case False
    then have "gauss_coeff n = 0" by (simp only: gauss_coeff_def if_False)
    with False show ?thesis by (simp only: if_False mult_zero_left)
  qed
  have "(\<lambda>n. gauss_coeff n * real (Suc n) * x ^ n) = (\<lambda>n. if even n then ?g (n div 2) else 0)"
    by (rule ext) (rule t)
  with s show ?thesis by (simp only: add_0_right)
qed


lemma gauss_primitive_deriv:
  "(gauss_primitive has_real_derivative exp (- x\<^sup>2 / 2)) (at x)"
proof -
  have "((\<lambda>x. \<Sum>n. gauss_coeff n * x ^ Suc n) has_real_derivative
          (\<Sum>n. gauss_coeff n * real (Suc n) * x ^ n)) (at x)"
  proof (rule DERIV_power_series')
    show "x \<in> {- (\<bar>x\<bar> + 1) <..< \<bar>x\<bar> + 1}" by auto
    show "0 < \<bar>x\<bar> + 1" by simp
    show "summable (\<lambda>n. gauss_coeff n * real (Suc n) * y ^ n)" for y
      using gauss_density_sums [of y] by (rule sums_summable)
  qed
  moreover have "(\<Sum>n. gauss_coeff n * real (Suc n) * x ^ n) = exp (- x\<^sup>2 / 2)"
    using gauss_density_sums [of x] by (rule sums_unique [symmetric])
  moreover have "gauss_primitive = (\<lambda>x. \<Sum>n. gauss_coeff n * x ^ Suc n)"
    by (rule ext) (rule gauss_primitive_def)
  ultimately show ?thesis
    by (simp only:)
qed

lemma gauss_primitive_0: "gauss_primitive 0 = 0"
  by (simp add: gauss_primitive_def)

lemma std_normal_cdf_0: "std_normal_cdf 0 = 1 / 2"
  by (simp add: std_normal_cdf_def gauss_primitive_0)

lemma std_normal_cdf_deriv:
  "(std_normal_cdf has_real_derivative exp (- x\<^sup>2 / 2) / sqrt (2 * pi)) (at x)"
proof -
  have "((\<lambda>x. 1 / 2 + gauss_primitive x / sqrt (2 * pi)) has_real_derivative
      0 + exp (- x\<^sup>2 / 2) / sqrt (2 * pi)) (at x)"
    by (intro DERIV_add DERIV_const DERIV_cdivide gauss_primitive_deriv)
  moreover have "std_normal_cdf = (\<lambda>x. 1 / 2 + gauss_primitive x / sqrt (2 * pi))"
    by (rule ext) (rule std_normal_cdf_def)
  ultimately show ?thesis by (simp only: add_0_left)
qed

lemma arctan_lower7:
  fixes x :: real
  assumes "0 \<le> x"
  shows "x - x^3 / 3 + x^5 / 5 - x^7 / 7 \<le> arctan x"
proof -
  let ?g = "\<lambda>t::real. arctan t - (t - t^3 / 3 + t^5 / 5 - t^7 / 7)"
  have "?g 0 \<le> ?g x"
  proof (rule DERIV_nonneg_imp_nondecreasing [OF assms])
    fix t :: real
    have d: "(?g has_real_derivative inverse (1 + t\<^sup>2) - (1 - t^2 + t^4 - t^6)) (at t)"
      by (auto intro!: derivative_eq_intros DERIV_arctan)
    have "inverse (1 + t\<^sup>2) - (1 - t^2 + t^4 - t^6) = t^8 / (1 + t\<^sup>2)"
    proof -
      have nz: "1 + t\<^sup>2 \<noteq> 0" by (metis add_pos_nonneg less_numeral_extra(1) less_irrefl zero_le_power2)
      have "(1 - t^2 + t^4 - t^6) * (1 + t\<^sup>2) = 1 - t^8" by (simp add: algebra_simps power2_eq_square power_numeral_reduce)
      then have "(1 - t^2 + t^4 - t^6) = (1 - t^8) / (1 + t\<^sup>2)" using nz by (simp add: field_simps)
      then show ?thesis using nz by (simp add: inverse_eq_divide diff_divide_distrib)
    qed
    moreover have "0 \<le> t^8 / (1 + t\<^sup>2)" by (intro divide_nonneg_pos) (simp_all add: add_pos_nonneg)
    ultimately show "\<exists>y. (?g has_real_derivative y) (at t) \<and> 0 \<le> y" using d by auto
  qed
  then show ?thesis by simp
qed


lemma arctan_upper9:
  fixes x :: real
  assumes "0 \<le> x"
  shows "arctan x \<le> x - x^3 / 3 + x^5 / 5 - x^7 / 7 + x^9 / 9"
proof -
  let ?g = "\<lambda>t::real. (t - t^3 / 3 + t^5 / 5 - t^7 / 7 + t^9 / 9) - arctan t"
  have "?g 0 \<le> ?g x"
  proof (rule DERIV_nonneg_imp_nondecreasing [OF assms])
    fix t :: real
    have d: "(?g has_real_derivative (1 - t^2 + t^4 - t^6 + t^8) - inverse (1 + t\<^sup>2)) (at t)"
      by (auto intro!: derivative_eq_intros DERIV_arctan)
    have "(1 - t^2 + t^4 - t^6 + t^8) - inverse (1 + t\<^sup>2) = t^10 / (1 + t\<^sup>2)"
    proof -
      have nz: "1 + t\<^sup>2 \<noteq> 0" by (metis add_pos_nonneg less_numeral_extra(1) less_irrefl zero_le_power2)
      have "(1 - t^2 + t^4 - t^6 + t^8) * (1 + t\<^sup>2) = 1 + t^10" by (simp add: algebra_simps power2_eq_square power_numeral_reduce)
      then have "(1 - t^2 + t^4 - t^6 + t^8) = (1 + t^10) / (1 + t\<^sup>2)" using nz by (simp add: field_simps)
      then show ?thesis using nz by (simp add: inverse_eq_divide add_divide_distrib)
    qed
    moreover have "0 \<le> t^10 / (1 + t\<^sup>2)" by (intro divide_nonneg_pos) (simp_all add: add_pos_nonneg)
    ultimately show "\<exists>y. (?g has_real_derivative y) (at t) \<and> 0 \<le> y" using d by auto
  qed
  then show ?thesis by simp
qed

lemma arctan_lower3:
  fixes x :: real
  assumes "0 \<le> x"
  shows "x - x^3 / 3 \<le> arctan x"
proof -
  let ?g = "\<lambda>t::real. arctan t - (t - t^3 / 3)"
  have "?g 0 \<le> ?g x"
  proof (rule DERIV_nonneg_imp_nondecreasing [OF assms])
    fix t :: real
    have d: "(?g has_real_derivative inverse (1 + t\<^sup>2) - (1 - t^2)) (at t)"
      by (auto intro!: derivative_eq_intros DERIV_arctan)
    have "inverse (1 + t\<^sup>2) - (1 - t^2) = t^4 / (1 + t\<^sup>2)"
    proof -
      have nz: "1 + t\<^sup>2 \<noteq> 0" by (metis add_pos_nonneg less_numeral_extra(1) less_irrefl zero_le_power2)
      have "(1 - t^2) * (1 + t\<^sup>2) = 1 - t^4" by (simp add: algebra_simps power2_eq_square power_numeral_reduce)
      then have "(1 - t^2) = (1 - t^4) / (1 + t\<^sup>2)" using nz by (simp add: field_simps)
      then show ?thesis using nz by (simp add: inverse_eq_divide diff_divide_distrib)
    qed
    moreover have "0 \<le> t^4 / (1 + t\<^sup>2)" by (intro divide_nonneg_pos) (simp_all add: add_pos_nonneg)
    ultimately show "\<exists>y. (?g has_real_derivative y) (at t) \<and> 0 \<le> y" using d by auto
  qed
  then show ?thesis by simp
qed

lemma arctan_upper1:
  fixes x :: real
  assumes "0 \<le> x"
  shows "arctan x \<le> x"
proof -
  let ?g = "\<lambda>t::real. t - arctan t"
  have "?g 0 \<le> ?g x"
  proof (rule DERIV_nonneg_imp_nondecreasing [OF assms])
    fix t :: real
    have d: "(?g has_real_derivative 1 - inverse (1 + t\<^sup>2)) (at t)"
      by (auto intro!: derivative_eq_intros DERIV_arctan)
    have "1 \<le> 1 + t\<^sup>2" by simp
    then have "inverse (1 + t\<^sup>2) \<le> 1" by (rule inverse_le_1_iff [THEN iffD2, OF disjI2])
    then show "\<exists>y. (?g has_real_derivative y) (at t) \<and> 0 \<le> y" using d by auto
  qed
  then show ?thesis by simp
qed

lemma pi_bounds: "(3141591 / 1000000 :: real) < pi" "pi < (3141593 / 1000000 :: real)"
proof -
  have a5l: "(1/5 :: real) - (1/5)^3 / 3 + (1/5)^5 / 5 - (1/5)^7 / 7 \<le> arctan (1/5)"
    by (rule arctan_lower7) simp
  have a5u: "arctan (1/5) \<le> (1/5 :: real) - (1/5)^3 / 3 + (1/5)^5 / 5 - (1/5)^7 / 7 + (1/5)^9 / 9"
    by (rule arctan_upper9) simp
  have a239l: "(1/239 :: real) - (1/239)^3 / 3 \<le> arctan (1/239)"
    by (rule arctan_lower3) simp
  have a239u: "arctan (1/239) \<le> (1/239 :: real)"
    by (rule arctan_upper1) simp
  have p: "pi = 16 * arctan (1 / 5) - 4 * arctan (1 / 239)"
    using machin by simp
  from a5l a239u show "(3141591 / 1000000 :: real) < pi"
    unfolding p by (simp add: power_numeral_reduce)
  from a5u a239l show "pi < (3141593 / 1000000 :: real)"
    unfolding p by (simp add: power_numeral_reduce)
qed

lemma exp_neg_upper2:
  fixes u :: real
  assumes "0 \<le> u"
  shows "exp (- u) \<le> 1 - u + u\<^sup>2 / 2"
proof -
  let ?h = "\<lambda>t::real. 1 - t + t\<^sup>2 / 2 - exp (- t)"
  have "?h 0 \<le> ?h u"
  proof (rule DERIV_nonneg_imp_nondecreasing [OF assms])
    fix t :: real
    have d: "(?h has_real_derivative - 1 + t + exp (- t)) (at t)"
      by (auto intro!: derivative_eq_intros)
    have "1 + (- t) \<le> exp (- t)" by (rule exp_ge_add_one_self)
    then have "0 \<le> - 1 + t + exp (- t)" by simp
    with d show "\<exists>y. (?h has_real_derivative y) (at t) \<and> 0 \<le> y" by blast
  qed
  then show ?thesis by simp
qed

lemma exp_neg_lower3:
  fixes u :: real
  assumes "0 \<le> u"
  shows "1 - u + u\<^sup>2 / 2 - u^3 / 6 \<le> exp (- u)"
proof -
  let ?k = "\<lambda>t::real. exp (- t) - (1 - t + t\<^sup>2 / 2 - t^3 / 6)"
  have "?k 0 \<le> ?k u"
  proof (rule DERIV_nonneg_imp_nondecreasing [OF assms])
    fix t :: real
    assume "0 \<le> t"
    have d: "(?k has_real_derivative - exp (- t) + 1 - t + t\<^sup>2 / 2) (at t)"
      by (auto intro!: derivative_eq_intros)
    have "exp (- t) \<le> 1 - t + t\<^sup>2 / 2" by (rule exp_neg_upper2 [OF \<open>0 \<le> t\<close>])
    then have "0 \<le> - exp (- t) + 1 - t + t\<^sup>2 / 2" by simp
    with d show "\<exists>y. (?k has_real_derivative y) (at t) \<and> 0 \<le> y" by blast
  qed
  then show ?thesis by simp
qed

lemma gauss_primitive_upper:
  fixes G :: "real \<Rightarrow> real" and x :: real
  assumes der: "\<And>t. (G has_real_derivative exp (- t\<^sup>2 / 2)) (at t)" and "0 \<le> x"
  shows "G x - G 0 \<le> x - x^3 / 6 + x^5 / 40"
proof -
  let ?h = "\<lambda>t::real. (t - t^3 / 6 + t^5 / 40) - G t"
  have "?h 0 \<le> ?h x"
  proof (rule DERIV_nonneg_imp_nondecreasing [OF assms(2)])
    fix t :: real
    have d: "(?h has_real_derivative (1 - t^2 / 2 + t^4 / 8) - exp (- t\<^sup>2 / 2)) (at t)"
      by (auto intro!: derivative_eq_intros der)
    have "exp (- (t\<^sup>2 / 2)) \<le> 1 - t\<^sup>2 / 2 + (t\<^sup>2 / 2)\<^sup>2 / 2"
      by (rule exp_neg_upper2) simp
    also have "(t\<^sup>2 / 2)\<^sup>2 / 2 = t^4 / 8"
      by (simp add: power2_eq_square power_numeral_reduce)
    finally have "0 \<le> (1 - t^2 / 2 + t^4 / 8) - exp (- t\<^sup>2 / 2)" by simp
    with d show "\<exists>y. (?h has_real_derivative y) (at t) \<and> 0 \<le> y" by blast
  qed
  then show ?thesis by simp
qed

lemma gauss_primitive_lower:
  fixes G :: "real \<Rightarrow> real" and x :: real
  assumes der: "\<And>t. (G has_real_derivative exp (- t\<^sup>2 / 2)) (at t)" and "0 \<le> x"
  shows "x - x^3 / 6 + x^5 / 40 - x^7 / 336 \<le> G x - G 0"
proof -
  let ?h = "\<lambda>t::real. G t - (t - t^3 / 6 + t^5 / 40 - t^7 / 336)"
  have "?h 0 \<le> ?h x"
  proof (rule DERIV_nonneg_imp_nondecreasing [OF assms(2)])
    fix t :: real
    have d: "(?h has_real_derivative exp (- t\<^sup>2 / 2) - (1 - t^2 / 2 + t^4 / 8 - t^6 / 48)) (at t)"
      by (auto intro!: derivative_eq_intros der)
    have "1 - t\<^sup>2 / 2 + (t\<^sup>2 / 2)\<^sup>2 / 2 - (t\<^sup>2 / 2)^3 / 6 \<le> exp (- (t\<^sup>2 / 2))"
      by (rule exp_neg_lower3) simp
    moreover have "(t\<^sup>2 / 2)\<^sup>2 / 2 = t^4 / 8" "(t\<^sup>2 / 2)^3 / 6 = t^6 / 48"
      by (simp_all add: power2_eq_square power_numeral_reduce)
    ultimately have "0 \<le> exp (- t\<^sup>2 / 2) - (1 - t^2 / 2 + t^4 / 8 - t^6 / 48)" by simp
    with d show "\<exists>y. (?h has_real_derivative y) (at t) \<and> 0 \<le> y" by blast
  qed
  then show ?thesis by simp
qed


lemma sqrt_two_pi_bounds:
  "(2506627 / 1000000 :: real) \<le> sqrt (2 * pi)" "sqrt (2 * pi) \<le> (2506629 / 1000000 :: real)"
proof -
  have "(2506627 / 1000000 :: real)\<^sup>2 \<le> 2 * pi"
    using pi_bounds(1) by (simp add: power2_eq_square)
  then show "(2506627 / 1000000 :: real) \<le> sqrt (2 * pi)"
    by (rule real_le_rsqrt)
  have "2 * pi \<le> (2506629 / 1000000 :: real)\<^sup>2"
    using pi_bounds(2) by (simp add: power2_eq_square)
  then show "sqrt (2 * pi) \<le> (2506629 / 1000000 :: real)"
    by (intro real_le_lsqrt) simp_all
qed

lemma normal_cdf_symmetric:
  fixes \<Phi> :: "real \<Rightarrow> real"
  assumes der: "\<And>x. (\<Phi> has_real_derivative exp (- x\<^sup>2 / 2) / sqrt (2 * pi)) (at x)"
    and zero: "\<Phi> 0 = 1 / 2"
  shows "\<Phi> (- x) = 1 - \<Phi> x"
proof -
  let ?h = "\<lambda>x. \<Phi> x + \<Phi> (- x)"
  have "(?h has_real_derivative 0) (at t)" for t
  proof -
    have m: "((\<lambda>x::real. - x) has_real_derivative - 1) (at t)"
      by (auto intro!: derivative_eq_intros)
    have "((\<lambda>x. \<Phi> (- x)) has_real_derivative exp (- (- t)\<^sup>2 / 2) / sqrt (2 * pi) * (- 1)) (at t)"
      by (rule DERIV_chain2 [OF der m])
    then have "((\<lambda>x. \<Phi> (- x)) has_real_derivative - (exp (- t\<^sup>2 / 2) / sqrt (2 * pi))) (at t)"
      by (simp only: power2_minus mult_minus1_right)
    from DERIV_add [OF der this] show ?thesis
      by (simp only: add.right_inverse)
  qed
  then have "\<forall>t. (?h has_real_derivative 0) (at t)" by blast
  then have "?h x = ?h 0" by (rule DERIV_isconst_all)
  with zero show ?thesis by simp
qed

lemma normal_cdf_quarter:
  fixes \<Phi> :: "real \<Rightarrow> real"
  assumes der: "\<And>x. (\<Phi> has_real_derivative exp (- x\<^sup>2 / 2) / sqrt (2 * pi)) (at x)"
    and zero: "\<Phi> 0 = 1 / 2"
  shows "1 / 2 + (2270089 / 9175040) / (2506629 / 1000000) \<le> \<Phi> (1 / 4)"
    and "\<Phi> (1 / 4) \<le> 1 / 2 + (30403 / 122880) / (2506627 / 1000000)"
proof -
  define w where "w = sqrt (2 * pi)"
  have w: "2506627 / 1000000 \<le> w" "w \<le> 2506629 / 1000000"
    unfolding w_def by (rule sqrt_two_pi_bounds)+
  then have wpos: "0 < w" by linarith
  define G where "G = (\<lambda>t. w * \<Phi> t)"
  have G: "(G has_real_derivative exp (- t\<^sup>2 / 2)) (at t)" for t
  proof -
    have "((\<lambda>t. w * \<Phi> t) has_real_derivative w * (exp (- t\<^sup>2 / 2) / w)) (at t)"
      using der [of t] unfolding w_def by (rule DERIV_cmult)
    moreover have "w * (exp (- t\<^sup>2 / 2) / w) = exp (- t\<^sup>2 / 2)"
      using wpos by simp
    ultimately show ?thesis by (simp only: G_def)
  qed
  define g where "g = \<Phi> (1 / 4) - 1 / 2"
  have Gg: "G (1 / 4) - G 0 = w * g"
    by (simp add: G_def g_def zero algebra_simps)
  have lo: "(2270089 / 9175040 :: real) \<le> w * g"
    using gauss_primitive_lower [of G "1 / 4", OF G] unfolding Gg
    by (simp add: power_numeral_reduce)
  have hi: "w * g \<le> (30403 / 122880 :: real)"
    using gauss_primitive_upper [of G "1 / 4", OF G] unfolding Gg
    by (simp add: power_numeral_reduce)
  have gpos: "0 \<le> g"
  proof (rule ccontr)
    assume "\<not> 0 \<le> g"
    then have "w * g < 0" using wpos by (simp add: mult_less_0_iff)
    with lo show False by linarith
  qed
  have "(2270089 / 9175040 :: real) \<le> (2506629 / 1000000) * g"
  proof -
    have "w * g \<le> (2506629 / 1000000) * g"
      using w(2) gpos by (rule mult_right_mono)
    with lo show ?thesis by linarith
  qed
  then have g_lo: "(2270089 / 9175040) / (2506629 / 1000000) \<le> g"
    by (simp add: field_simps)
  have "(2506627 / 1000000) * g \<le> (30403 / 122880 :: real)"
  proof -
    have "(2506627 / 1000000) * g \<le> w * g"
      using w(1) gpos by (rule mult_right_mono)
    with hi show ?thesis by linarith
  qed
  then have g_hi: "g \<le> (30403 / 122880) / (2506627 / 1000000)"
    by (simp add: field_simps)
  from g_lo show "1 / 2 + (2270089 / 9175040) / (2506629 / 1000000) \<le> \<Phi> (1 / 4)"
    unfolding g_def by linarith
  from g_hi show "\<Phi> (1 / 4) \<le> 1 / 2 + (30403 / 122880) / (2506627 / 1000000)"
    unfolding g_def by linarith
qed


lemma main_opt_fields:
  "strike_price (main_opt ot) = 100" "vol (main_opt ot) = 1 / 2"
  "discount_rate (main_opt ot) = 1 / 100" "option_type (main_opt ot) = ot"
  "expiry_date (main_opt ot) = main_expiry"
  by (simp_all add: main_opt_def)

subsection \<open>The tails: a one-day contract\<close>

lemma double_cdf_range: "0 \<le> double_cdf x" "double_cdf x \<le> 1"
  by (simp_all add: double_cdf_def)

lemma double_cdf_tails: "x \<le> - 39 \<Longrightarrow> double_cdf x = 0" "9 \<le> x \<Longrightarrow> double_cdf x = 1"
  by (simp_all add: double_cdf_def)

lemma init_short_opt:
  "init 100 next_day_expiry (1/10) (1/100) ''c'' = Inr (short_opt ''c'')"
  "init 100 next_day_expiry (1/10) (1/100) ''p'' = Inr (short_opt ''p'')"
  by (simp_all add: init_def short_opt_def)

lemma short_opt_fields:
  "strike_price (short_opt ot) = 100" "vol (short_opt ot) = 1 / 10"
  "discount_rate (short_opt ot) = 1 / 100" "option_type (short_opt ot) = ot"
  "expiry_date (short_opt ot) = next_day_expiry"
  by (simp_all add: short_opt_def)

lemma days_short: "days (datetime_sub next_day_expiry main_curr_time) = 1"
  by (simp add: datetime_sub_def mk_timedelta_def toordinal_def next_day_expiry_def
        main_curr_time_def days_before_year_def days_before_month_def DAYS_BEFORE_MONTH_def
        is_leap_def)

lemma calc_maturity_short: "calc_maturity (short_opt ot) main_curr_time = 1 / 365"
  by (simp add: calc_maturity_def short_opt_fields days_short)

lemma sqrt_day_bounds: "0 < sqrt (1 / 365 :: real)" "sqrt (1 / 365 :: real) \<le> 524 / 10000"
proof -
  show "0 < sqrt (1 / 365 :: real)" by simp
  have "(1 / 365 :: real) \<le> (524 / 10000)\<^sup>2" by (simp add: power2_eq_square)
  then show "sqrt (1 / 365 :: real) \<le> 524 / 10000"
    by (intro real_le_lsqrt) simp_all
qed

lemma tail_low:
  fixes l s :: real
  assumes "l \<le> - (21 / 100)" "0 < s" "s \<le> 524 / 10000"
  shows "(l + 0.5 * (1 / 10)\<^sup>2 * (1 / 365)) / (1 / 10 * s) \<le> - 39"
proof -
  have dn: "0 < 1 / 10 * s" using assms(2) by simp
  have "l + 0.5 * (1 / 10)\<^sup>2 * (1 / 365) \<le> - 39 * (1 / 10 * s)"
    using assms(1,3) by (simp add: power2_eq_square)
  then show ?thesis
    using dn by (simp only: pos_divide_le_eq)
qed

lemma tail_high:
  fixes l s :: real
  assumes "475 / 10000 \<le> l" "0 < s" "s \<le> 524 / 10000"
  shows "9 \<le> (l + 0.5 * (1 / 10)\<^sup>2 * (1 / 365)) / (1 / 10 * s)"
proof -
  have dn: "0 < 1 / 10 * s" using assms(2) by simp
  have "9 * (1 / 10 * s) \<le> l + 0.5 * (1 / 10)\<^sup>2 * (1 / 365)"
    using assms(1,3) by (simp add: power2_eq_square)
  then show ?thesis
    using dn by (simp only: pos_le_divide_eq)
qed

lemma ln_105: "(475 / 10000 :: real) \<le> ln (105 / 100)"
proof -
  have "(1 / 20 :: real) - (1 / 20)\<^sup>2 \<le> ln (1 + 1 / 20)"
    by (rule ln_one_plus_pos_lower_bound) simp_all
  then show ?thesis by (simp add: power2_eq_square)
qed

lemma ln_70: "ln (70 / 100 :: real) \<le> - (21 / 100)"
proof -
  have "ln (70 / 100 :: real) \<le> 70 / 100 - 1" by (rule ln_le_minus_one) simp
  then show ?thesis by simp
qed


lemma ln_80: "ln (80 / 100 :: real) \<le> - (21 / 100)"
proof -
  have "1 - 21 / 100 + (21 / 100)\<^sup>2 / 2 - (21 / 100) ^ 3 / 6 \<le> exp (- (21 / 100 :: real))"
    by (rule exp_neg_lower3) simp
  then have "(80 / 100 :: real) \<le> exp (- (21 / 100))"
    by (simp add: power2_eq_square power3_eq_cube)
  then have "ln (80 / 100 :: real) \<le> ln (exp (- (21 / 100)))"
    by (intro ln_mono) simp_all
  then show ?thesis by simp
qed

lemma short_d1:
  assumes "0 < F"
  shows "calc_d1 (short_opt ot) F (calc_maturity (short_opt ot) main_curr_time)
       = Inr ((ln (F / 100) + 0.5 * (1 / 10)\<^sup>2 * (1 / 365)) / (1 / 10 * sqrt (1 / 365)))"
  using assms by (simp add: calc_d1_Inr_iff calc_maturity_short short_opt_fields)

lemma short_delta_put_105:
  "get_delta double_cdf (short_opt ''p'') 105 main_curr_time = Inr 0"
proof -
  define d where "d = (ln (105 / 100) + 0.5 * (1 / 10)\<^sup>2 * (1 / 365)) / (1 / 10 * sqrt (1 / 365 :: real))"
  have d1: "calc_d1 (short_opt ''p'') 105 (calc_maturity (short_opt ''p'') main_curr_time) = Inr d"
    unfolding d_def by (rule short_d1) simp
  have "9 \<le> d"
    unfolding d_def by (rule tail_high [OF ln_105 sqrt_day_bounds])
  then have "double_cdf d = 1" by (rule double_cdf_tails)
  with get_delta_Inr [OF d1, of double_cdf] show ?thesis
    by (simp add: short_opt_fields)
qed

lemma short_delta_call_70:
  "get_delta double_cdf (short_opt ''c'') 70 main_curr_time = Inr 0"
proof -
  define d where "d = (ln (70 / 100) + 0.5 * (1 / 10)\<^sup>2 * (1 / 365)) / (1 / 10 * sqrt (1 / 365 :: real))"
  have d1: "calc_d1 (short_opt ''c'') 70 (calc_maturity (short_opt ''c'') main_curr_time) = Inr d"
    unfolding d_def by (rule short_d1) simp
  have "d \<le> - 39"
    unfolding d_def by (rule tail_low [OF ln_70 sqrt_day_bounds])
  then have "double_cdf d = 0" by (rule double_cdf_tails)
  with get_delta_Inr [OF d1, of double_cdf] show ?thesis
    by (simp add: short_opt_fields)
qed

lemma short_price_call_zero:
  assumes "0 < F" and "ln (F / 100) \<le> - (21 / 100)"
  shows "get_price double_cdf (short_opt ''c'') F main_curr_time = Inr 0"
proof -
  define d where "d = (ln (F / 100) + 0.5 * (1 / 10)\<^sup>2 * (1 / 365)) / (1 / 10 * sqrt (1 / 365 :: real))"
  have d1: "calc_d1 (short_opt ''c'') F (calc_maturity (short_opt ''c'') main_curr_time) = Inr d"
    unfolding d_def by (rule short_d1 [OF assms(1)])
  have lo: "d \<le> - 39"
    unfolding d_def by (rule tail_low [OF assms(2) sqrt_day_bounds])
  then have c1: "double_cdf d = 0" by (rule double_cdf_tails)
  have "0 \<le> 1 / 10 * sqrt (1 / 365 :: real)" by simp
  with lo have "d - 1 / 10 * sqrt (1 / 365) \<le> - 39" by linarith
  then have c2: "double_cdf (d - 1 / 10 * sqrt (1 / 365)) = 0" by (rule double_cdf_tails)
  from get_price_Inr [OF d1, of double_cdf] c1 c2 show ?thesis
    by (simp add: short_opt_fields calc_maturity_short)
qed

lemma std_normal_cdf_pos:
  assumes "- 1 \<le> x"
  shows "0 < std_normal_cdf x"
proof -
  have g: "- 1 \<le> gauss_primitive x"
  proof (cases "0 \<le> x")
    case True
    have "gauss_primitive 0 \<le> gauss_primitive x"
    proof (rule DERIV_nonneg_imp_nondecreasing [OF True])
      fix t :: real
      have "0 \<le> exp (- t\<^sup>2 / 2)" by simp
      with gauss_primitive_deriv [of t]
      show "\<exists>y. (gauss_primitive has_real_derivative y) (at t) \<and> 0 \<le> y" by blast
    qed
    then show ?thesis by (simp add: gauss_primitive_0)
  next
    case False
    then have x: "x \<le> 0" by simp
    let ?k = "\<lambda>t. gauss_primitive t - t"
    have "?k 0 \<le> ?k x"
    proof (rule DERIV_nonpos_imp_nonincreasing [OF x])
      fix t :: real
      have d: "(?k has_real_derivative exp (- t\<^sup>2 / 2) - 1) (at t)"
        by (auto intro!: derivative_eq_intros gauss_primitive_deriv)
      have "- t\<^sup>2 / 2 \<le> 0" by simp
      then have "exp (- t\<^sup>2 / 2) \<le> 1" by (simp only: exp_le_one_iff)
      then have "exp (- t\<^sup>2 / 2) - 1 \<le> 0" by simp
      with d show "\<exists>y. (?k has_real_derivative y) (at t) \<and> y \<le> 0" by blast
    qed
    then have "x \<le> gauss_primitive x" by (simp add: gauss_primitive_0)
    with assms show ?thesis by linarith
  qed
  define w where "w = sqrt (2 * pi)"
  have w: "2506627 / 1000000 \<le> w" unfolding w_def by (rule sqrt_two_pi_bounds)
  then have wpos: "0 < w" by linarith
  have "(- 1) / w \<le> gauss_primitive x / w"
    using g wpos by (intro divide_right_mono) simp_all
  moreover have "1 / w \<le> 1 / (2506627 / 1000000)"
    using w by (intro divide_left_mono) simp_all
  ultimately have "- (1 / (2506627 / 1000000)) \<le> gauss_primitive x / w" by simp
  then have "0 < 1 / 2 + gauss_primitive x / w" by simp
  then show ?thesis
    by (simp only: std_normal_cdf_def w_def)
qed

section \<open>The claims\<close>

text \<open>
  C1. For every constructed engine, futures price \<open>F\<close> and valuation time \<open>t\<close>, with the time
  to maturity \<open>T\<close>, \<open>d1\<close> and \<open>d2\<close> recomputed from the inputs: \<open>get_price\<close> returns
  \<open>exp (- r * T) * (F * \<Phi> d1 - K * \<Phi> d2)\<close> for a call and
  \<open>exp (- r * T) * (K * \<Phi> (- d2) - F * \<Phi> (- d1))\<close> for a put, with nothing clamped. A value
  is returned exactly when \<open>d1\<close> can be computed (\<open>K \<noteq> 0\<close>, \<open>0 < F / K\<close>, \<open>0 < T\<close>, \<open>v \<noteq> 0\<close>);
  otherwise the exception of \<open>_calc_d1\<close> is the outcome.
\<close>

theorem get_price_black76:
  assumes "init K E v r ot = Inr e"
    and "T = of_int (days (datetime_sub E t)) / 365"
    and "d1 = (ln (F / K) + 0.5 * v\<^sup>2 * T) / (v * sqrt T)"
    and "d2 = d1 - v * sqrt T"
  shows "(K \<noteq> 0 \<and> 0 < F / K \<and> 0 < T \<and> v \<noteq> 0 \<longrightarrow>
            (ot = ''c'' \<longrightarrow>
               get_price \<Phi> e F t = Inr (exp (- r * T) * (F * \<Phi> d1 - K * \<Phi> d2))) \<and>
            (ot = ''p'' \<longrightarrow>
               get_price \<Phi> e F t = Inr (exp (- r * T) * (K * \<Phi> (- d2) - F * \<Phi> (- d1))))) \<and>
         (ot = ''c'' \<or> ot = ''p'') \<and>
         (\<not> (K \<noteq> 0 \<and> 0 < F / K \<and> 0 < T \<and> v \<noteq> 0) \<longrightarrow>
            (\<exists>err. calc_d1 e F T = Inl err \<and> get_price \<Phi> e F t = Inl err))"
proof -
  note f = init_fields [OF assms(1)]
  have T: "calc_maturity e t = T"
    by (simp add: calc_maturity_def f assms(2))
  have ok: "get_price \<Phi> e F t =
      (if ot = ''c'' then Inr (exp (- r * T) * (F * \<Phi> d1 - K * \<Phi> d2))
       else Inr (exp (- r * T) * (K * \<Phi> (- d2) - F * \<Phi> (- d1))))"
    if "K \<noteq> 0 \<and> 0 < F / K \<and> 0 < T \<and> v \<noteq> 0"
  proof -
    from that have "calc_d1 e F (calc_maturity e t) = Inr d1"
      by (simp add: calc_d1_Inr_iff f T assms(3))
    from get_price_Inr [OF this, of \<Phi>] f(6) show ?thesis
      by (auto simp: f(1-5) T assms(4))
  qed
  have bad: "\<exists>err. calc_d1 e F T = Inl err \<and> get_price \<Phi> e F t = Inl err"
    if "\<not> (K \<noteq> 0 \<and> 0 < F / K \<and> 0 < T \<and> v \<noteq> 0)"
  proof -
    from that obtain err where "calc_d1 e F T = Inl err"
      using calc_d1_Inl_iff [of e F T] by (auto simp: f)
    then show ?thesis
      using get_price_Inl [of e F t err \<Phi>] by (simp add: T)
  qed
  from ok bad f(6) show ?thesis by auto
qed

theorem get_price_black76_witness:
  "get_price (\<lambda>x. if x < 0 then 1/4 else 3/4) (main_opt ''c'') 100 main_curr_time
     = Inr (exp (- (1/100)) * 50)"
  using get_price_black76 [OF init_main_opt, of 1 main_curr_time "1/4" 100 "-1/4" "\<lambda>x. if x < 0 then 1/4 else 3/4"]
  by (simp add: days_main power2_eq_square)

text \<open>
  C2. For every constructed engine, futures price and valuation time, with \<open>T\<close> and \<open>d1\<close>
  recomputed from the inputs: \<open>get_delta\<close> returns \<open>exp (- r * T) * \<Phi> d1\<close> for a call and
  \<open>exp (- r * T) * (\<Phi> d1 - 1)\<close> for a put.
\<close>

theorem get_delta_black76:
  assumes "init K E v r ot = Inr e"
    and "T = of_int (days (datetime_sub E t)) / 365"
    and "d1 = (ln (F / K) + 0.5 * v\<^sup>2 * T) / (v * sqrt T)"
  shows "(K \<noteq> 0 \<and> 0 < F / K \<and> 0 < T \<and> v \<noteq> 0 \<longrightarrow>
            (ot = ''c'' \<longrightarrow> get_delta \<Phi> e F t = Inr (exp (- r * T) * \<Phi> d1)) \<and>
            (ot = ''p'' \<longrightarrow> get_delta \<Phi> e F t = Inr (exp (- r * T) * (\<Phi> d1 - 1)))) \<and>
         (ot = ''c'' \<or> ot = ''p'') \<and>
         (\<not> (K \<noteq> 0 \<and> 0 < F / K \<and> 0 < T \<and> v \<noteq> 0) \<longrightarrow>
            (\<exists>err. calc_d1 e F T = Inl err \<and> get_delta \<Phi> e F t = Inl err))"
proof -
  note f = init_fields [OF assms(1)]
  have T: "calc_maturity e t = T"
    by (simp add: calc_maturity_def f assms(2))
  have ok: "get_delta \<Phi> e F t =
      (if ot = ''c'' then Inr (exp (- r * T) * \<Phi> d1) else Inr (exp (- r * T) * (\<Phi> d1 - 1)))"
    if "K \<noteq> 0 \<and> 0 < F / K \<and> 0 < T \<and> v \<noteq> 0"
  proof -
    from that have "calc_d1 e F (calc_maturity e t) = Inr d1"
      by (simp add: calc_d1_Inr_iff f T assms(3))
    from get_delta_Inr [OF this, of \<Phi>] f(6) show ?thesis
      by (auto simp: f(1-5) T)
  qed
  have bad: "\<exists>err. calc_d1 e F T = Inl err \<and> get_delta \<Phi> e F t = Inl err"
    if "\<not> (K \<noteq> 0 \<and> 0 < F / K \<and> 0 < T \<and> v \<noteq> 0)"
  proof -
    from that obtain err where "calc_d1 e F T = Inl err"
      using calc_d1_Inl_iff [of e F T] by (auto simp: f)
    then show ?thesis
      using get_delta_Inl [of e F t err \<Phi>] by (simp add: T)
  qed
  from ok bad f(6) show ?thesis by auto
qed

theorem get_delta_black76_witness:
  "get_delta (\<lambda>x. if x < 0 then 1/4 else 3/4) (main_opt ''p'') 100 main_curr_time
     = Inr (exp (- (1/100)) * (- (1/4)))"
  using get_delta_black76 [OF init_main_opt_put, of 1 main_curr_time "1/4" 100 "\<lambda>x. if x < 0 then 1/4 else 3/4"]
  by (simp add: days_main power2_eq_square)

text \<open>
  C5. Construction raises the option-type error if and only if \<open>option_type\<close> is neither
  \<open>'c'\<close> nor \<open>'p'\<close>; it raises nothing else; with \<open>'c'\<close> or \<open>'p'\<close> it succeeds and stores the
  five arguments; and on an engine that was constructed, neither \<open>get_price\<close> nor \<open>get_delta\<close>
  raises the option-type error later.
\<close>

theorem construction_validation:
  "((\<exists>err. init K E v r ot = Inl err) \<longleftrightarrow> ot \<noteq> ''c'' \<and> ot \<noteq> ''p'') \<and>
   (init K E v r ot = Inl err \<longrightarrow> err = InvalidOptionType) \<and>
   (ot = ''c'' \<or> ot = ''p'' \<longrightarrow>
      init K E v r ot = Inr \<lparr>strike_price = K, expiry_date = E, vol = v,
                              discount_rate = r, option_type = ot\<rparr>) \<and>
   (init K E v r ot = Inr e \<longrightarrow>
      get_price \<Phi> e F t \<noteq> Inl InvalidOptionType \<and> get_delta \<Phi> e F t \<noteq> Inl InvalidOptionType)"
  by (auto simp: init_def get_price_def get_delta_def Let_def calc_d1_unfold sqrt_py_def
           split: sum.splits if_splits)

theorem construction_validation_witness:
  "init 100 main_expiry (1/2) (1/100) ''c'' = Inr (main_opt ''c'') \<and>
   init 100 main_expiry (1/2) (1/100) ''x'' = Inl InvalidOptionType \<and>
   get_price (\<lambda>x. 1/2) (main_opt ''c'') 100 main_curr_time \<noteq> Inl InvalidOptionType \<and>
   get_delta (\<lambda>x. 1/2) (main_opt ''c'') 100 main_curr_time \<noteq> Inl InvalidOptionType"
proof -
  have bad: "init 100 main_expiry (1/2) (1/100) ''x'' = Inl InvalidOptionType"
    by (simp add: init_def)
  from construction_validation [of 100 main_expiry "1/2" "1/100" "''x''" InvalidOptionType]
  have "\<exists>err. init 100 main_expiry (1/2) (1/100) ''x'' = Inl err"
    by simp
  with construction_validation [of 100 main_expiry "1/2" "1/100" "''c''" InvalidOptionType
      "main_opt ''c''" "\<lambda>x. 1/2" 100 main_curr_time] bad
  show ?thesis
    by (simp add: main_opt_def)
qed

text \<open>
  C10. On every engine whose construction succeeded the stored \<open>option_type\<close> is \<open>'c'\<close> or
  \<open>'p'\<close>, so the last branch of \<open>get_price\<close> and of \<open>get_delta\<close> is never taken: neither
  raises the option-type error.
\<close>

theorem fallthrough_unreachable:
  assumes "init K E v r ot = Inr e"
  shows "(option_type e = ''c'' \<or> option_type e = ''p'') \<and>
         get_price \<Phi> e F t \<noteq> Inl InvalidOptionType \<and>
         get_delta \<Phi> e F t \<noteq> Inl InvalidOptionType"
proof -
  from assms have ot: "option_type e = ''c'' \<or> option_type e = ''p''"
    by (auto simp: init_Inr_iff)
  have "get_price \<Phi> e F t \<noteq> Inl InvalidOptionType"
    using ot by (auto simp: get_price_def Let_def calc_d1_unfold sqrt_py_def split: sum.splits)
  moreover have "get_delta \<Phi> e F t \<noteq> Inl InvalidOptionType"
    using ot by (auto simp: get_delta_def Let_def calc_d1_unfold split: sum.splits)
  ultimately show ?thesis using ot by simp
qed

theorem fallthrough_unreachable_witness:
  "option_type (main_opt ''p'') = ''p'' \<and>
   get_price (\<lambda>x. 1/2) (main_opt ''p'') 100 main_curr_time \<noteq> Inl InvalidOptionType \<and>
   get_delta (\<lambda>x. 1/2) (main_opt ''p'') 100 main_curr_time \<noteq> Inl InvalidOptionType"
  using fallthrough_unreachable [OF init_main_opt_put, of "\<lambda>x. 1/2" 100 main_curr_time]
  by (simp add: main_opt_def)

text \<open>
  The branch itself is in the model: on a record that did not come from \<open>init\<close> it is taken,
  after \<open>d1\<close> has been computed.
\<close>

lemma fallthrough_taken_without_init:
  "get_price \<Phi> (main_opt ''x'') 100 main_curr_time = Inl InvalidOptionType \<and>
   get_delta \<Phi> (main_opt ''x'') 100 main_curr_time = Inl InvalidOptionType"
  by (simp add: get_price_def get_delta_def calc_maturity_main calc_d1_main sqrt_py_def)
     (simp add: main_opt_def)

text \<open>
  C3. For every constructed engine, futures price \<open>F\<close> and time to maturity \<open>T\<close>:
  \<open>d1 = (ln (F / K) + 0.5 * v\<^sup>2 * T) / (v * sqrt T)\<close>, and \<open>get_price\<close> uses
  \<open>d2 = d1 - v * sqrt T\<close>. When \<open>T = 0\<close> or \<open>v = 0\<close> (zero denominator) or \<open>T < 0\<close> (square root
  of a negative number), \<open>_calc_d1\<close> raises a division-by-zero or a math domain error, and
  \<open>get_price\<close> and \<open>get_delta\<close> pass that exception on: nothing is caught and no fallback
  value is returned.
\<close>

theorem calc_d1_formula_and_errors:
  assumes "init K E v r ot = Inr e"
  shows "(K \<noteq> 0 \<and> 0 < F / K \<and> 0 < T \<and> v \<noteq> 0 \<longrightarrow>
            calc_d1 e F T = Inr ((ln (F / K) + 0.5 * v\<^sup>2 * T) / (v * sqrt T))) \<and>
         (calc_maturity e t = T \<and> calc_d1 e F T = Inr d1 \<longrightarrow>
            get_price \<Phi> e F t =
              (let d2 = d1 - v * sqrt T in
               if ot = ''c'' then Inr (exp (- r * T) * (F * \<Phi> d1 - K * \<Phi> d2))
               else Inr (exp (- r * T) * (K * \<Phi> (- d2) - F * \<Phi> (- d1))))) \<and>
         (T = 0 \<or> v = 0 \<or> T < 0 \<longrightarrow>
            calc_d1 e F T = Inl ZeroDivisionError \<or> calc_d1 e F T = Inl MathDomainError) \<and>
         (K \<noteq> 0 \<and> 0 < F / K \<and> 0 \<le> T \<and> (T = 0 \<or> v = 0) \<longrightarrow>
            calc_d1 e F T = Inl ZeroDivisionError) \<and>
         (K \<noteq> 0 \<and> 0 < F / K \<and> T < 0 \<longrightarrow> calc_d1 e F T = Inl MathDomainError) \<and>
         (calc_maturity e t = T \<and> calc_d1 e F T = Inl err \<longrightarrow>
            get_price \<Phi> e F t = Inl err \<and> get_delta \<Phi> e F t = Inl err)"
proof -
  note f = init_fields [OF assms]
  have c1: "K \<noteq> 0 \<and> 0 < F / K \<and> 0 < T \<and> v \<noteq> 0 \<longrightarrow>
            calc_d1 e F T = Inr ((ln (F / K) + 0.5 * v\<^sup>2 * T) / (v * sqrt T))"
    by (simp add: calc_d1_Inr_iff f(1-5))
  have c2: "calc_maturity e t = T \<and> calc_d1 e F T = Inr d1 \<longrightarrow>
            get_price \<Phi> e F t =
              (let d2 = d1 - v * sqrt T in
               if ot = ''c'' then Inr (exp (- r * T) * (F * \<Phi> d1 - K * \<Phi> d2))
               else Inr (exp (- r * T) * (K * \<Phi> (- d2) - F * \<Phi> (- d1))))"
  proof
    assume a: "calc_maturity e t = T \<and> calc_d1 e F T = Inr d1"
    then have "calc_d1 e F (calc_maturity e t) = Inr d1" by simp
    from get_price_Inr [OF this, of \<Phi>] a f(6)
    show "get_price \<Phi> e F t =
              (let d2 = d1 - v * sqrt T in
               if ot = ''c'' then Inr (exp (- r * T) * (F * \<Phi> d1 - K * \<Phi> d2))
               else Inr (exp (- r * T) * (K * \<Phi> (- d2) - F * \<Phi> (- d1))))"
      by (auto simp: f(1-5) Let_def)
  qed
  have c3: "T = 0 \<or> v = 0 \<or> T < 0 \<longrightarrow>
            calc_d1 e F T = Inl ZeroDivisionError \<or> calc_d1 e F T = Inl MathDomainError"
    by (auto simp: calc_d1_unfold f(1-5))
  have c4: "K \<noteq> 0 \<and> 0 < F / K \<and> 0 \<le> T \<and> (T = 0 \<or> v = 0) \<longrightarrow>
            calc_d1 e F T = Inl ZeroDivisionError"
    by (auto simp: calc_d1_unfold f(1-5))
  have c5: "K \<noteq> 0 \<and> 0 < F / K \<and> T < 0 \<longrightarrow> calc_d1 e F T = Inl MathDomainError"
    by (auto simp: calc_d1_unfold f(1-5))
  have c6: "calc_maturity e t = T \<and> calc_d1 e F T = Inl err \<longrightarrow>
            get_price \<Phi> e F t = Inl err \<and> get_delta \<Phi> e F t = Inl err"
    using get_price_Inl [of e F t err \<Phi>] get_delta_Inl [of e F t err \<Phi>] by auto
  from c1 c2 c3 c4 c5 c6 show ?thesis by blast
qed

theorem calc_d1_formula_and_errors_witness:
  "calc_d1 (main_opt ''c'') 100 1 = Inr (1/4) \<and>
   get_price logistic (main_opt ''c'') 100 main_curr_time =
     Inr (exp (- (1/100)) * (100 * logistic (1/4) - 100 * logistic (- (1/4)))) \<and>
   calc_d1 (main_opt ''c'') 100 0 = Inl ZeroDivisionError \<and>
   calc_d1 (main_opt ''c'') 100 (- 1) = Inl MathDomainError \<and>
   get_price logistic (main_opt ''c'') 100 main_expiry = Inl ZeroDivisionError \<and>
   get_delta logistic (main_opt ''c'') 100 main_expiry = Inl ZeroDivisionError"
proof -
  note ok = calc_d1_formula_and_errors [OF init_main_opt, of 100 1 main_curr_time "1/4" logistic]
  note z = calc_d1_formula_and_errors [OF init_main_opt, of 100 0 main_expiry _ logistic
      ZeroDivisionError]
  note neg = calc_d1_formula_and_errors [OF init_main_opt, of 100 "- 1"]
  have d1: "calc_d1 (main_opt ''c'') 100 1 = Inr (1/4)"
    using ok by (simp add: power2_eq_square)
  have p: "get_price logistic (main_opt ''c'') 100 main_curr_time =
     Inr (exp (- (1/100)) * (100 * logistic (1/4) - 100 * logistic (- (1/4))))"
    using ok d1 by (simp add: calc_maturity_main)
  have z1: "calc_d1 (main_opt ''c'') 100 0 = Inl ZeroDivisionError"
    using z by simp
  have z2: "get_price logistic (main_opt ''c'') 100 main_expiry = Inl ZeroDivisionError \<and>
            get_delta logistic (main_opt ''c'') 100 main_expiry = Inl ZeroDivisionError"
    using z z1 by (simp add: calc_maturity_main_expiry)
  have n1: "calc_d1 (main_opt ''c'') 100 (- 1) = Inl MathDomainError"
    using neg by simp
  from d1 p z1 z2 n1 show ?thesis by simp
qed

text \<open>
  C4. For every constructed engine and valuation time \<open>t\<close> (both datetimes well-formed), the
  time to maturity is the \<open>days\<close> field of \<open>expiry_date - t\<close> divided by 365, where that field
  is the number of whole days in the difference, rounded down: \<open>days\<close> days fit into the
  difference and \<open>days + 1\<close> do not. Nothing is adjusted for leap years and nothing is
  special-cased: the result is at most 0 when \<open>t\<close> is at or after the expiry (0 when equal,
  at most \<open>- 1 / 365\<close> when strictly after).
\<close>

theorem calc_maturity_day_count:
  assumes "init K E v r ot = Inr e" and "valid_datetime E" and "valid_datetime t"
  shows "calc_maturity e t = of_int (days (datetime_sub E t)) / 365 \<and>
         days (datetime_sub E t) = (to_us E - to_us t) div 86400000000 \<and>
         days (datetime_sub E t) * 86400000000 \<le> to_us E - to_us t \<and>
         to_us E - to_us t < (days (datetime_sub E t) + 1) * 86400000000 \<and>
         (datetime_le E t \<longrightarrow> calc_maturity e t \<le> 0) \<and>
         (datetime_key E = datetime_key t \<longrightarrow> calc_maturity e t = 0) \<and>
         (datetime_lt E t \<longrightarrow> calc_maturity e t \<le> - 1 / 365) \<and>
         (datetime_lt t E \<longrightarrow> 0 \<le> calc_maturity e t)"
proof -
  define n where "n = days (datetime_sub E t)"
  define x where "x = to_us E - to_us t"
  have T: "calc_maturity e t = of_int n / 365"
    by (simp add: calc_maturity_def init_fields(2) [OF assms(1)] n_def)
  have n: "n = x div 86400000000"
    by (simp add: n_def x_def days_datetime_sub)
  have lo: "n * 86400000000 \<le> x" and hi': "x < n * 86400000000 + 86400000000"
  proof -
    define m where "m = x mod 86400000000"
    have d: "x = n * 86400000000 + m" by (simp add: n m_def)
    have m: "0 \<le> m" "m < 86400000000" by (simp_all add: m_def)
    from m show "n * 86400000000 \<le> x" unfolding d by simp
    from m show "x < n * 86400000000 + 86400000000" unfolding d by simp
  qed
  from hi' have hi: "x < (n + 1) * 86400000000" by (simp add: algebra_simps)
  have le: "calc_maturity e t \<le> 0" if "datetime_le E t"
  proof -
    from that have "x \<le> 0" using to_us_le [OF assms(2,3)] by (simp add: x_def)
    with lo have "n \<le> 0" by linarith
    then show ?thesis by (simp add: T)
  qed
  have eq: "calc_maturity e t = 0" if "datetime_key E = datetime_key t"
  proof -
    from that have "x = 0" using to_us_eq [OF assms(2,3)] by (simp add: x_def)
    then show ?thesis by (simp add: T n)
  qed
  have lt: "calc_maturity e t \<le> - 1 / 365" if "datetime_lt E t"
  proof -
    from that have "x < 0" using to_us_less [OF assms(2,3)] by (simp add: x_def)
    with lo have "n \<le> - 1" by linarith
    then have "(of_int n :: real) \<le> - 1" by (metis of_int_le_iff of_int_minus of_int_1)
    then show ?thesis by (simp add: T)
  qed
  have ge: "0 \<le> calc_maturity e t" if "datetime_lt t E"
  proof -
    from that have "0 < x" using to_us_less [OF assms(3,2)] by (simp add: x_def)
    with hi' have "0 \<le> n" by linarith
    then show ?thesis by (simp add: T)
  qed
  from T n lo hi le eq lt ge show ?thesis
    unfolding n_def x_def by blast
qed

theorem calc_maturity_day_count_witness:
  "calc_maturity (main_opt ''c'') main_curr_time = 1 \<and>
   datetime_lt main_curr_time main_expiry \<and>
   calc_maturity \<lparr>strike_price = 100, expiry_date = main_curr_time, vol = 1/2,
                  discount_rate = 1/100, option_type = ''c''\<rparr> main_expiry = - 1 \<and>
   datetime_le main_curr_time main_expiry"
proof -
  have lt: "datetime_lt main_curr_time main_expiry"
    by (simp add: datetime_lt_def datetime_key_def main_curr_time_def main_expiry_def)
  then have le: "datetime_le main_curr_time main_expiry"
    by (simp add: datetime_le_def)
  have i: "init 100 main_curr_time (1/2) (1/100) ''c'' =
      Inr \<lparr>strike_price = 100, expiry_date = main_curr_time, vol = 1/2,
           discount_rate = 1/100, option_type = ''c''\<rparr>"
    by (simp add: init_def)
  from calc_maturity_day_count [OF init_main_opt valid_main(1) valid_main(2)]
  have "calc_maturity (main_opt ''c'') main_curr_time = 1"
    by (simp add: days_main)
  moreover from calc_maturity_day_count [OF i valid_main(2) valid_main(1)] le
  have "calc_maturity \<lparr>strike_price = 100, expiry_date = main_curr_time, vol = 1/2,
                  discount_rate = 1/100, option_type = ''c''\<rparr> main_expiry = - 1"
    by (simp add: days_main_rev)
  ultimately show ?thesis using lt le by simp
qed

text \<open>
  Two values of the day count: a leap year gives \<open>366 / 365\<close>, and half a day after the expiry
  gives \<open>- 1 / 365\<close>, since the whole days are rounded down.
\<close>

lemma calc_maturity_leap_year:
  "calc_maturity \<lparr>strike_price = K, expiry_date = new_year_2021, vol = v,
                  discount_rate = r, option_type = ot\<rparr> new_year_2020 = 366 / 365"
  by (simp add: calc_maturity_def datetime_sub_def mk_timedelta_def toordinal_def
        new_year_2020_def new_year_2021_def days_before_year_def days_before_month_def
        DAYS_BEFORE_MONTH_def is_leap_def)

lemma calc_maturity_half_day_late:
  "calc_maturity \<lparr>strike_price = K, expiry_date = new_year_2021, vol = v,
                  discount_rate = r, option_type = ot\<rparr> (new_year_2021\<lparr>hour := 12\<rparr>) = - 1 / 365"
  by (simp add: calc_maturity_def datetime_sub_def mk_timedelta_def toordinal_def
        new_year_2021_def)

text \<open>
  C6, as amended. For every constructed engine and all inputs with \<open>T > 0\<close> and \<open>v > 0\<close> (strike
  and futures price positive, as the data model has them), and a distribution function with
  values in \<open>[0, 1]\<close>: the delta of a call lies in \<open>[0, exp (- r * T)]\<close> and the delta of a put
  in \<open>[- exp (- r * T), 0]\<close>. The call delta is strictly positive exactly when the
  distribution function is not 0 at \<open>d1\<close>, and the put delta strictly negative exactly when
  it is not 1 there.
\<close>

theorem delta_sign_bounds:
  assumes "init K E v r ot = Inr e"
    and "T = of_int (days (datetime_sub E t)) / 365"
    and "d1 = (ln (F / K) + 0.5 * v\<^sup>2 * T) / (v * sqrt T)"
    and "0 < T" and "0 < v" and "0 < K" and "0 < F"
    and "\<forall>x. 0 \<le> \<Phi> x \<and> \<Phi> x \<le> 1"
  shows "(ot = ''c'' \<longrightarrow>
            (\<exists>d. get_delta \<Phi> e F t = Inr d \<and> 0 \<le> d \<and> d \<le> exp (- r * T) \<and>
                 (0 < d \<longleftrightarrow> 0 < \<Phi> d1))) \<and>
         (ot = ''p'' \<longrightarrow>
            (\<exists>d. get_delta \<Phi> e F t = Inr d \<and> - exp (- r * T) \<le> d \<and> d \<le> 0 \<and>
                 (d < 0 \<longleftrightarrow> \<Phi> d1 < 1)))"
proof -
  note f = init_fields [OF assms(1)]
  have T: "calc_maturity e t = T"
    by (simp add: calc_maturity_def f(1-5) assms(2))
  have "calc_d1 e F (calc_maturity e t) = Inr d1"
    using assms(4-7) by (simp add: calc_d1_Inr_iff f(1-5) T assms(3))
  note gd = get_delta_Inr [OF this, of \<Phi>]
  define D where "D = exp (- r * T)"
  have D: "0 < D" by (simp add: D_def)
  from assms(8) have phi: "0 \<le> \<Phi> d1" "\<Phi> d1 \<le> 1" by simp_all
  have call: "0 \<le> D * \<Phi> d1" "D * \<Phi> d1 \<le> D" "0 < D * \<Phi> d1 \<longleftrightarrow> 0 < \<Phi> d1"
  proof -
    show "0 \<le> D * \<Phi> d1" using D phi(1) by simp
    have "D * \<Phi> d1 \<le> D * 1" using D phi(2) by (intro mult_left_mono) simp_all
    then show "D * \<Phi> d1 \<le> D" by simp
    show "0 < D * \<Phi> d1 \<longleftrightarrow> 0 < \<Phi> d1" using D by (simp add: zero_less_mult_iff)
  qed
  have put: "- D \<le> D * (\<Phi> d1 - 1)" "D * (\<Phi> d1 - 1) \<le> 0" "D * (\<Phi> d1 - 1) < 0 \<longleftrightarrow> \<Phi> d1 < 1"
  proof -
    have eq: "D * (\<Phi> d1 - 1) = D * \<Phi> d1 - D" by (simp add: algebra_simps)
    from call(1) show "- D \<le> D * (\<Phi> d1 - 1)" unfolding eq by linarith
    from call(2) show "D * (\<Phi> d1 - 1) \<le> 0" unfolding eq by linarith
    show "D * (\<Phi> d1 - 1) < 0 \<longleftrightarrow> \<Phi> d1 < 1" using D by (simp add: mult_less_0_iff)
  qed
  from gd call put show ?thesis
    by (auto simp: f(1-5) T D_def)
qed

theorem delta_sign_bounds_witness:
  "(\<exists>d. get_delta double_cdf (short_opt ''c'') 70 main_curr_time = Inr d \<and>
        0 \<le> d \<and> d \<le> exp (- (1 / 100) * (1 / 365))) \<and>
   (\<exists>d. get_delta double_cdf (short_opt ''p'') 105 main_curr_time = Inr d \<and>
        - exp (- (1 / 100) * (1 / 365)) \<le> d \<and> d \<le> 0)"
proof -
  have r: "\<forall>x. 0 \<le> double_cdf x \<and> double_cdf x \<le> 1"
    using double_cdf_range by simp
  have T: "(1 / 365 :: real) = real_of_int (days (datetime_sub next_day_expiry main_curr_time)) / 365"
    by (simp add: days_short)
  from delta_sign_bounds [OF init_short_opt(1) T refl _ _ _ _ r, of 70]
       delta_sign_bounds [OF init_short_opt(2) T refl _ _ _ _ r, of 105]
  show ?thesis by auto
qed

text \<open>
  C6 as stated, with the strict signs for all inputs, fails in the tails. On the one-day
  contract (\<open>T = 1 / 365\<close>, \<open>v = 0.1\<close>, strike 100) \<open>d1\<close> is above 9 at the futures price 105
  and below -39 at 70; the distribution function is 1 and 0 there, and the delta of the put,
  and of the call, is exactly 0.
\<close>

theorem delta_strict_sign_counterexample:
  "init 100 next_day_expiry (1/10) (1/100) ''p'' = Inr (short_opt ''p'') \<and>
   init 100 next_day_expiry (1/10) (1/100) ''c'' = Inr (short_opt ''c'') \<and>
   calc_maturity (short_opt ''p'') main_curr_time = 1 / 365 \<and>
   get_delta double_cdf (short_opt ''p'') 105 main_curr_time = Inr 0 \<and>
   get_delta double_cdf (short_opt ''c'') 70 main_curr_time = Inr 0"
  by (simp add: init_short_opt calc_maturity_short short_delta_put_105 short_delta_call_70)

text \<open>
  C7. For two engines with the same strike, expiry, volatility and discount rate, one a call
  and one a put, and every futures price and valuation time: whenever the deltas are
  returned, call delta minus put delta is \<open>exp (- r * T)\<close>; both engines raise the same
  exception or neither does; and the deltas are returned when \<open>d1\<close> can be computed.
\<close>

theorem put_call_delta:
  assumes "init K E v r ''c'' = Inr ec" and "init K E v r ''p'' = Inr ep"
    and "T = of_int (days (datetime_sub E t)) / 365"
  shows "(\<forall>dc dp. get_delta \<Phi> ec F t = Inr dc \<and> get_delta \<Phi> ep F t = Inr dp \<longrightarrow>
            dc - dp = exp (- r * T)) \<and>
         (\<forall>err. get_delta \<Phi> ec F t = Inl err \<longleftrightarrow> get_delta \<Phi> ep F t = Inl err) \<and>
         (K \<noteq> 0 \<and> 0 < F / K \<and> 0 < T \<and> v \<noteq> 0 \<longrightarrow>
            (\<exists>dc dp. get_delta \<Phi> ec F t = Inr dc \<and> get_delta \<Phi> ep F t = Inr dp))"
proof -
  note fc = init_fields(1-5) [OF assms(1)] and fp = init_fields(1-5) [OF assms(2)]
  have Tc: "calc_maturity ec t = T" and Tp: "calc_maturity ep t = T"
    by (simp_all add: calc_maturity_def fc fp assms(3))
  have same: "calc_d1 ec F T = calc_d1 ep F T"
    by (simp add: calc_d1_unfold fc fp)
  show ?thesis
  proof (cases "calc_d1 ep F T")
    case (Inl err)
    with same have "get_delta \<Phi> ec F t = Inl err" "get_delta \<Phi> ep F t = Inl err"
      using get_delta_Inl [of ec F t err \<Phi>] get_delta_Inl [of ep F t err \<Phi>]
      by (simp_all add: Tc Tp)
    moreover from Inl have "\<not> (K \<noteq> 0 \<and> 0 < F / K \<and> 0 < T \<and> v \<noteq> 0)"
      using calc_d1_Inl_iff [of ep F T] by (auto simp: fp)
    ultimately show ?thesis by auto
  next
    case (Inr d1)
    with same have c: "get_delta \<Phi> ec F t = Inr (exp (- r * T) * \<Phi> d1)"
      and p: "get_delta \<Phi> ep F t = Inr (exp (- r * T) * (\<Phi> d1 - 1))"
      using get_delta_Inr [of ec F t d1 \<Phi>] get_delta_Inr [of ep F t d1 \<Phi>]
      by (simp_all add: Tc Tp fc fp)
    have "exp (- r * T) * \<Phi> d1 - exp (- r * T) * (\<Phi> d1 - 1) = exp (- r * T)"
      by (simp add: algebra_simps)
    with c p show ?thesis by auto
  qed
qed

theorem put_call_delta_witness:
  "\<exists>dc dp. get_delta logistic (main_opt ''c'') 100 main_curr_time = Inr dc \<and>
           get_delta logistic (main_opt ''p'') 100 main_curr_time = Inr dp \<and>
           dc - dp = exp (- (1/100))"
proof -
  note t = put_call_delta [OF init_main_opt init_main_opt_put, of 1 main_curr_time logistic 100]
  have "\<exists>dc dp. get_delta logistic (main_opt ''c'') 100 main_curr_time = Inr dc \<and>
           get_delta logistic (main_opt ''p'') 100 main_curr_time = Inr dp"
    using t by (simp add: days_main)
  then obtain dc dp where "get_delta logistic (main_opt ''c'') 100 main_curr_time = Inr dc"
    "get_delta logistic (main_opt ''p'') 100 main_curr_time = Inr dp" by blast
  moreover from this t have "dc - dp = exp (- (1/100))"
    by (simp add: days_main)
  ultimately show ?thesis by blast
qed

text \<open>
  C8, as amended. For every constructed engine with \<open>T > 0\<close> and \<open>v > 0\<close> (and a positive strike),
  and futures prices \<open>0 < F1 < F2\<close>, let \<open>a\<close> and \<open>b\<close> be \<open>d1\<close> at \<open>F1\<close> and at \<open>F2\<close>. The price of a
  call at \<open>F2\<close> is strictly greater than at \<open>F1\<close> provided that on \<open>[a - v * sqrt T, b]\<close>, the
  range of \<open>d1\<close> and \<open>d2\<close> between the two prices, the distribution function is positive and
  has a multiple of the Gaussian \<open>exp (- x\<^sup>2 / 2)\<close> as its derivative. The price of a put is
  strictly smaller under the same condition on \<open>[- b, v * sqrt T - a]\<close>, the range of \<open>- d1\<close>
  and \<open>- d2\<close>. The exact standard normal distribution function meets the condition
  everywhere, with \<open>c = 1 / sqrt (2 * pi)\<close>; one that is exactly 0 in the tail does not
  meet it there.
\<close>

theorem price_monotone_in_futures:
  fixes T :: real
  assumes "init K E v r ot = Inr e"
    and "T = of_int (days (datetime_sub E t)) / 365"
    and "0 < T" and "0 < v" and "0 < K" and "0 < F1" and "F1 < F2"
    and "a = (ln (F1 / K) + 0.5 * v\<^sup>2 * T) / (v * sqrt T)"
    and "b = (ln (F2 / K) + 0.5 * v\<^sup>2 * T) / (v * sqrt T)"
  shows "(ot = ''c'' \<and>
          (\<forall>x. a - v * sqrt T \<le> x \<and> x \<le> b \<longrightarrow>
               (\<Phi> has_real_derivative c * exp (- x\<^sup>2 / 2)) (at x) \<and> 0 < \<Phi> x) \<longrightarrow>
            (\<exists>p1 p2. get_price \<Phi> e F1 t = Inr p1 \<and> get_price \<Phi> e F2 t = Inr p2 \<and> p1 < p2)) \<and>
         (ot = ''p'' \<and>
          (\<forall>x. - b \<le> x \<and> x \<le> v * sqrt T - a \<longrightarrow>
               (\<Phi> has_real_derivative c * exp (- x\<^sup>2 / 2)) (at x) \<and> 0 < \<Phi> x) \<longrightarrow>
            (\<exists>p1 p2. get_price \<Phi> e F1 t = Inr p1 \<and> get_price \<Phi> e F2 t = Inr p2 \<and> p2 < p1))"
proof -
  note f = init_fields [OF assms(1)]
  define s where "s = v * sqrt T"
  define d where "d = (\<lambda>F. (ln (F / K) + s\<^sup>2 / 2) / s)"
  have s: "0 < s" using assms(3,4) by (simp add: s_def)
  have Tm: "calc_maturity e t = T"
    by (simp add: calc_maturity_def f(1-5) assms(2))
  have F2: "0 < F2" using assms(6,7) by linarith
  have md: "(ln (F / K) + 0.5 * v\<^sup>2 * T) / (v * sqrt T) = d F" for F
    using model_d1 [OF assms(4,3), of F K] by (simp add: d_def s_def)
  have a: "a = d F1" and b: "b = d F2"
    by (simp_all only: assms(8,9) md)
  have d1: "calc_d1 e F (calc_maturity e t) = Inr (d F)" if "0 < F" for F
    using that assms(3,4,5) md [of F]
    by (simp add: calc_d1_Inr_iff f(1-5) Tm)
  have D: "0 < exp (- r * T)" by simp
  have c: "get_price \<Phi> e F t = Inr (exp (- r * T) * (F * \<Phi> (d F) - K * \<Phi> (d F - s)))"
    if "0 < F" "ot = ''c''" for F
    using get_price_Inr [OF d1 [OF that(1)], of \<Phi>] that(2)
    by (simp add: f(1-5) Tm s_def)
  have p: "get_price \<Phi> e F t = Inr (exp (- r * T) * (K * \<Phi> (- (d F - s)) - F * \<Phi> (- d F)))"
    if "0 < F" "ot = ''p''" for F
    using get_price_Inr [OF d1 [OF that(1)], of \<Phi>] that(2)
    by (simp add: f(1-5) Tm s_def)
  have call: "\<exists>p1 p2. get_price \<Phi> e F1 t = Inr p1 \<and> get_price \<Phi> e F2 t = Inr p2 \<and> p1 < p2"
    if ot: "ot = ''c''"
      and loc: "\<forall>x. a - v * sqrt T \<le> x \<and> x \<le> b \<longrightarrow>
               (\<Phi> has_real_derivative c * exp (- x\<^sup>2 / 2)) (at x) \<and> 0 < \<Phi> x"
  proof -
    have l: "(\<Phi> has_real_derivative c * exp (- x\<^sup>2 / 2)) (at x) \<and> 0 < \<Phi> x"
      if "(ln (F1 / K) + s\<^sup>2 / 2) / s - s \<le> x" "x \<le> (ln (F2 / K) + s\<^sup>2 / 2) / s" for x
      using that loc by (simp add: a b d_def s_def)
    have "F1 * \<Phi> (d F1) - K * \<Phi> (d F1 - s) < F2 * \<Phi> (d F2) - K * \<Phi> (d F2 - s)"
      unfolding d_def by (rule call_value_increasing [OF assms(5) s assms(6,7) l])
    with D have "exp (- r * T) * (F1 * \<Phi> (d F1) - K * \<Phi> (d F1 - s))
               < exp (- r * T) * (F2 * \<Phi> (d F2) - K * \<Phi> (d F2 - s))"
      by (simp only: mult_less_cancel_left_pos)
    with c [OF assms(6) ot] c [OF F2 ot] show ?thesis by blast
  qed
  have put: "\<exists>p1 p2. get_price \<Phi> e F1 t = Inr p1 \<and> get_price \<Phi> e F2 t = Inr p2 \<and> p2 < p1"
    if ot: "ot = ''p''"
      and loc: "\<forall>x. - b \<le> x \<and> x \<le> v * sqrt T - a \<longrightarrow>
               (\<Phi> has_real_derivative c * exp (- x\<^sup>2 / 2)) (at x) \<and> 0 < \<Phi> x"
  proof -
    have l: "(\<Phi> has_real_derivative c * exp (- x\<^sup>2 / 2)) (at x) \<and> 0 < \<Phi> x"
      if "- ((ln (F2 / K) + s\<^sup>2 / 2) / s) \<le> x" "x \<le> s - (ln (F1 / K) + s\<^sup>2 / 2) / s" for x
      using that loc by (simp add: a b d_def s_def)
    have "K * \<Phi> (- (d F2 - s)) - F2 * \<Phi> (- d F2) < K * \<Phi> (- (d F1 - s)) - F1 * \<Phi> (- d F1)"
      unfolding d_def by (rule put_value_decreasing [OF assms(5) s assms(6,7) l])
    with D have "exp (- r * T) * (K * \<Phi> (- (d F2 - s)) - F2 * \<Phi> (- d F2))
               < exp (- r * T) * (K * \<Phi> (- (d F1 - s)) - F1 * \<Phi> (- d F1))"
      by (simp only: mult_less_cancel_left_pos)
    with p [OF assms(6) ot] p [OF F2 ot] show ?thesis by blast
  qed
  from call put show ?thesis by blast
qed


theorem price_monotone_in_futures_witness:
  "(\<exists>p1 p2. get_price std_normal_cdf (main_opt ''c'') 100 main_curr_time = Inr p1 \<and>
            get_price std_normal_cdf (main_opt ''c'') 110 main_curr_time = Inr p2 \<and> p1 < p2) \<and>
   (\<exists>p1 p2. get_price std_normal_cdf (main_opt ''p'') 100 main_curr_time = Inr p1 \<and>
            get_price std_normal_cdf (main_opt ''p'') 110 main_curr_time = Inr p2 \<and> p2 < p1)"
proof -
  define b :: real where "b = (ln (110 / 100) + 0.5 * (1 / 2)\<^sup>2 * 1) / (1 / 2 * sqrt 1)"
  have T: "(1::real) = real_of_int (days (datetime_sub main_expiry main_curr_time)) / 365"
    by (simp add: days_main)
  have a: "(1 / 4 :: real) = (ln (100 / 100) + 0.5 * (1 / 2)\<^sup>2 * 1) / (1 / 2 * sqrt 1)"
    by (simp add: power2_eq_square)
  have "ln (110 / 100 :: real) \<le> 110 / 100 - 1" by (rule ln_le_minus_one) simp
  then have b1: "b \<le> 1" by (simp add: b_def power2_eq_square)
  have loc: "(std_normal_cdf has_real_derivative 1 / sqrt (2 * pi) * exp (- x\<^sup>2 / 2)) (at x) \<and>
      0 < std_normal_cdf x" if "- 1 \<le> x" for x
    using std_normal_cdf_deriv [of x] std_normal_cdf_pos [OF that] by simp
  have lc: "\<forall>x. 1 / 4 - 1 / 2 * sqrt 1 \<le> x \<and> x \<le> b \<longrightarrow>
      (std_normal_cdf has_real_derivative 1 / sqrt (2 * pi) * exp (- x\<^sup>2 / 2)) (at x) \<and>
      0 < std_normal_cdf x"
    using loc by simp
  have lp: "\<forall>x. - b \<le> x \<and> x \<le> 1 / 2 * sqrt 1 - 1 / 4 \<longrightarrow>
      (std_normal_cdf has_real_derivative 1 / sqrt (2 * pi) * exp (- x\<^sup>2 / 2)) (at x) \<and>
      0 < std_normal_cdf x"
    using loc b1 by simp
  from price_monotone_in_futures [OF init_main_opt T _ _ _ _ _ a b_def,
         where \<Phi> = std_normal_cdf and c = "1 / sqrt (2 * pi)"] lc
  have c: "\<exists>p1 p2. get_price std_normal_cdf (main_opt ''c'') 100 main_curr_time = Inr p1 \<and>
            get_price std_normal_cdf (main_opt ''c'') 110 main_curr_time = Inr p2 \<and> p1 < p2"
    by simp
  from price_monotone_in_futures [OF init_main_opt_put T _ _ _ _ _ a b_def,
         where \<Phi> = std_normal_cdf and c = "1 / sqrt (2 * pi)"] lp
  have p: "\<exists>p1 p2. get_price std_normal_cdf (main_opt ''p'') 100 main_curr_time = Inr p1 \<and>
            get_price std_normal_cdf (main_opt ''p'') 110 main_curr_time = Inr p2 \<and> p2 < p1"
    by simp
  from c p show ?thesis by blast
qed

text \<open>
  C8 as stated, for all futures prices, fails in the tails. On the one-day contract \<open>d1\<close> and
  \<open>d2\<close> are below -39 at the futures prices 70 and 80; the distribution function is 0 at
  both, and the price of the call is exactly 0 at 70 and at 80.
\<close>

theorem price_strict_monotone_counterexample:
  "init 100 next_day_expiry (1/10) (1/100) ''c'' = Inr (short_opt ''c'') \<and>
   calc_maturity (short_opt ''c'') main_curr_time = 1 / 365 \<and>
   get_price double_cdf (short_opt ''c'') 70 main_curr_time = Inr 0 \<and>
   get_price double_cdf (short_opt ''c'') 80 main_curr_time = Inr 0"
  using short_price_call_zero [of 70] short_price_call_zero [of 80] ln_70 ln_80
  by (simp add: init_short_opt calc_maturity_short)

text \<open>
  C9. The scenario of the driver: strike 100, volatility 0.5, expiry 2022-11-01 12:00:00,
  discount rate 0.01, a call, at futures price 100 and valuation time 2021-11-01 12:00:00.
  The expiry is 365 whole days away, so the time to maturity is \<open>365 / 365 = 1\<close>; with the
  standard normal distribution function (the function with the normal density as its
  derivative and the value \<open>1 / 2\<close> at 0), the price is within \<open>10\<^sup>-\<^sup>4\<close> of 19.544836 and the
  delta within \<open>10\<^sup>-\<^sup>4\<close> of 0.59273.
\<close>

theorem driver_scenario:
  assumes der: "\<forall>x. (\<Phi> has_real_derivative exp (- x\<^sup>2 / 2) / sqrt (2 * pi)) (at x)"
    and zero: "\<Phi> 0 = 1 / 2"
  shows "init 100 main_expiry (1/2) (1/100) ''c'' = Inr (main_opt ''c'') \<and>
         days (datetime_sub main_expiry main_curr_time) = 365 \<and>
         calc_maturity (main_opt ''c'') main_curr_time = 365 / 365 \<and>
         (\<exists>price. get_price \<Phi> (main_opt ''c'') 100 main_curr_time = Inr price \<and>
            \<bar>price - 19544836 / 1000000\<bar> \<le> 1 / 10000) \<and>
         (\<exists>delta. get_delta \<Phi> (main_opt ''c'') 100 main_curr_time = Inr delta \<and>
            \<bar>delta - 59273 / 100000\<bar> \<le> 1 / 10000)"
proof -
  from der have d: "\<And>x. (\<Phi> has_real_derivative exp (- x\<^sup>2 / 2) / sqrt (2 * pi)) (at x)"
    by simp
  define D :: real where "D = exp (- (1 / 100))"
  define q where "q = \<Phi> (1 / 4)"
  have D: "9900498 / 10000000 \<le> D" "D \<le> 99005 / 100000"
    unfolding D_def by (rule exp_neg_hundredth)+
  have q: "5987062 / 10000000 \<le> q" "q \<le> 5987065 / 10000000"
    using normal_cdf_quarter [of \<Phi>, OF d zero] unfolding q_def by simp_all
  have sym: "\<Phi> (- (1 / 4)) = 1 - q"
    unfolding q_def by (rule normal_cdf_symmetric [OF d zero])
  have d1: "calc_d1 (main_opt ''c'') 100 (calc_maturity (main_opt ''c'') main_curr_time) = Inr (1 / 4)"
    by (simp only: calc_maturity_main calc_d1_main)
  have "get_price \<Phi> (main_opt ''c'') 100 main_curr_time =
      Inr (exp (- (1 / 100) * 1) * (100 * \<Phi> (1 / 4) - 100 * \<Phi> (1 / 4 - 1 / 2 * sqrt 1)))"
    using get_price_Inr [OF d1, of \<Phi>]
    by (simp only: calc_maturity_main main_opt_fields simp_thms if_True)
  also have "1 / 4 - 1 / 2 * sqrt 1 = (- (1 / 4) :: real)" by simp
  finally have price: "get_price \<Phi> (main_opt ''c'') 100 main_curr_time = Inr (D * (200 * q - 100))"
    by (simp add: sym D_def q_def [symmetric] algebra_simps)
  have "get_delta \<Phi> (main_opt ''c'') 100 main_curr_time = Inr (exp (- (1 / 100) * 1) * \<Phi> (1 / 4))"
    using get_delta_Inr [OF d1, of \<Phi>]
    by (simp only: calc_maturity_main main_opt_fields simp_thms if_True)
  then have delta: "get_delta \<Phi> (main_opt ''c'') 100 main_curr_time = Inr (D * q)"
    by (simp add: D_def q_def)
  have X: "1974124 / 100000 \<le> 200 * q - 100" "200 * q - 100 \<le> 197413 / 10000"
    using q by simp_all
  have Dpos: "0 \<le> D" using D(1) by linarith
  have pl: "(9900498 / 10000000) * (1974124 / 100000) \<le> D * (200 * q - 100)"
    using D(1) X(1) by (intro mult_mono) simp_all
  have pu: "D * (200 * q - 100) \<le> (99005 / 100000) * (197413 / 10000)"
    using D(2) X(2) X(1) Dpos by (intro mult_mono) simp_all
  have pb: "\<bar>D * (200 * q - 100) - 19544836 / 1000000\<bar> \<le> 1 / 10000"
    using pl pu by linarith
  have dl: "(9900498 / 10000000) * (5987062 / 10000000) \<le> D * q"
    using D(1) q(1) by (intro mult_mono) simp_all
  have du: "D * q \<le> (99005 / 100000) * (5987065 / 10000000)"
    using D(2) q Dpos by (intro mult_mono) simp_all
  have db: "\<bar>D * q - 59273 / 100000\<bar> \<le> 1 / 10000"
    using dl du by linarith
  from price pb delta db init_main_opt days_main calc_maturity_main [of "''c''"]
  show ?thesis by simp
qed

theorem driver_scenario_witness:
  "(\<exists>price. get_price std_normal_cdf (main_opt ''c'') 100 main_curr_time = Inr price \<and>
      \<bar>price - 19544836 / 1000000\<bar> \<le> 1 / 10000) \<and>
   (\<exists>delta. get_delta std_normal_cdf (main_opt ''c'') 100 main_curr_time = Inr delta \<and>
      \<bar>delta - 59273 / 100000\<bar> \<le> 1 / 10000)"
proof -
  have der: "\<forall>x. (std_normal_cdf has_real_derivative exp (- x\<^sup>2 / 2) / sqrt (2 * pi)) (at x)"
    using std_normal_cdf_deriv by blast
  from driver_scenario [OF der std_normal_cdf_0] show ?thesis by blast
qed

end
